theory Spec2Isabelle
  imports Complex_Main "HOL-Library.Char_ord" "HOL-Library.List_Lexorder"
begin

section \<open>JSON values and Python dictionaries\<close>

text \<open>
  The records handled by \<^verbatim>\<open>pninja_search_tool.py\<close> are what \<^verbatim>\<open>response.json()\<close> returns:
  \<^verbatim>\<open>None\<close>, booleans, ints, floats, strings, lists and dicts with string keys. A Python
  float is read as the real number it denotes. A dict is an association list in insertion
  order; a well-formed dict has pairwise distinct keys.
\<close>

datatype json =
    JNull
  | JBool bool
  | JInt int
  | JFloat real
  | JStr string
  | JList "json list"
  | JObj "(string \<times> json) list"

type_synonym pydict = "(string \<times> json) list"

text \<open>\<^verbatim>\<open>d[k] = v\<close>: an existing key keeps its position, a new key goes to the end.\<close>

fun dict_set :: "string \<Rightarrow> json \<Rightarrow> pydict \<Rightarrow> pydict" where
  "dict_set k v [] = [(k, v)]"
| "dict_set k v ((k', v') # d) =
     (if k' = k then (k, v) # d else (k', v') # dict_set k v d)"

text \<open>\<^verbatim>\<open>d.get(k)\<close>, with \<open>None\<close> for an absent key, and \<^verbatim>\<open>k in d\<close>.\<close>

fun dict_get :: "pydict \<Rightarrow> string \<Rightarrow> json option" where
  "dict_get [] k = None"
| "dict_get ((k', v') # d) k = (if k' = k then Some v' else dict_get d k)"

definition dict_contains :: "string \<Rightarrow> pydict \<Rightarrow> bool" where
  "dict_contains k d = (dict_get d k \<noteq> None)"

text \<open>The dict left by \<^verbatim>\<open>d.pop(k)\<close>.\<close>

fun dict_remove :: "string \<Rightarrow> pydict \<Rightarrow> pydict" where
  "dict_remove k [] = []"
| "dict_remove k ((k', v') # d) = (if k' = k then d else (k', v') # dict_remove k d)"

text \<open>\<^verbatim>\<open>dict(items)\<close>: the pairs are stored from left to right, a later pair overwriting
  the value of an earlier one with the same key.\<close>

definition dict_of_items :: "(string \<times> json) list \<Rightarrow> pydict" where
  "dict_of_items items = foldl (\<lambda>d (k, v). dict_set k v d) [] items"

text \<open>\<^verbatim>\<open>isinstance(v, dict)\<close> and \<^verbatim>\<open>isinstance(v, list)\<close> are both false of a scalar.\<close>

fun is_scalar :: "json \<Rightarrow> bool" where
  "is_scalar (JObj d) = False"
| "is_scalar (JList xs) = False"
| "is_scalar v = True"

text \<open>Python's truth value of a JSON value, as tested by \<^verbatim>\<open>if found_items:\<close>.\<close>

fun truthy :: "json \<Rightarrow> bool" where
  "truthy JNull = False"
| "truthy (JBool b) = b"
| "truthy (JInt i) = (i \<noteq> 0)"
| "truthy (JFloat r) = (r \<noteq> 0)"
| "truthy (JStr s) = (s \<noteq> [])"
| "truthy (JList xs) = (xs \<noteq> [])"
| "truthy (JObj d) = (d \<noteq> [])"

section \<open>The result flattener\<close>

text \<open>
  \<^verbatim>\<open>_flatten_dict(self, d, parent_key='', sep='.')\<close>. The loop over \<^verbatim>\<open>d.items()\<close> builds
  the list \<^verbatim>\<open>items\<close>; \<open>flatten_items\<close> is that list, \<open>flatten_dict\<close> is \<^verbatim>\<open>dict(items)\<close>.
  \<^verbatim>\<open>json.dumps\<close> belongs to the standard library and is a parameter of the model.
\<close>

fun flatten_items :: "(json list \<Rightarrow> string) \<Rightarrow> pydict \<Rightarrow> string \<Rightarrow> string \<Rightarrow> (string \<times> json) list" where
  "flatten_items dumps [] parent_key sep = []"
| "flatten_items dumps ((k, JObj d') # d) parent_key sep =
     dict_of_items (flatten_items dumps d'
        (if parent_key \<noteq> [] then parent_key @ sep @ k else k) sep)
     @ flatten_items dumps d parent_key sep"
| "flatten_items dumps ((k, JList xs) # d) parent_key sep =
     ((if parent_key \<noteq> [] then parent_key @ sep @ k else k), JStr (dumps xs))
     # flatten_items dumps d parent_key sep"
| "flatten_items dumps ((k, v) # d) parent_key sep =
     ((if parent_key \<noteq> [] then parent_key @ sep @ k else k), v)
     # flatten_items dumps d parent_key sep"

definition flatten_dict :: "(json list \<Rightarrow> string) \<Rightarrow> pydict \<Rightarrow> string \<Rightarrow> string \<Rightarrow> pydict" where
  "flatten_dict dumps d parent_key sep = dict_of_items (flatten_items dumps d parent_key sep)"


section \<open>Python string operations\<close>

text \<open>\<^verbatim>\<open>str(n)\<close> for a non-negative integer: its decimal digits.\<close>

definition digit_char :: "nat \<Rightarrow> char" where
  "digit_char n = ''0123456789'' ! n"

function str_nat :: "nat \<Rightarrow> string" where
  "str_nat n = (if n < 10 then [digit_char n] else str_nat (n div 10) @ [digit_char (n mod 10)])"
  by pat_completeness auto
termination
  by (relation "measure (\<lambda>n. n)") auto

declare str_nat.simps [simp del]

text \<open>\<^verbatim>\<open>str.isspace\<close> on one character, for the code points below 256.\<close>

definition py_isspace :: "char \<Rightarrow> bool" where
  "py_isspace c =
     (let n = (of_char c :: nat)
      in (9 \<le> n \<and> n \<le> 13) \<or> (28 \<le> n \<and> n \<le> 32) \<or> n = 133 \<or> n = 160)"

text \<open>\<^verbatim>\<open>s.strip()\<close>: leading and trailing whitespace removed.\<close>

definition strip :: "string \<Rightarrow> string" where
  "strip s = rev (dropWhile py_isspace (rev (dropWhile py_isspace s)))"

text \<open>\<^verbatim>\<open>s.lower()\<close>, for the code points below 256.\<close>

definition lower_char :: "char \<Rightarrow> char" where
  "lower_char c =
     (let n = (of_char c :: nat)
      in if (65 \<le> n \<and> n \<le> 90) \<or> (192 \<le> n \<and> n \<le> 222 \<and> n \<noteq> 215)
         then char_of (n + 32) else c)"

definition lower :: "string \<Rightarrow> string" where
  "lower s = map lower_char s"

text \<open>\<^verbatim>\<open>re.split(r'[,\n]', s)\<close>: the pieces between commas and newlines, empty ones included.\<close>

fun re_split :: "string \<Rightarrow> string list" where
  "re_split [] = [[]]"
| "re_split (c # cs) =
     (if c = CHR '','' \<or> c = CHR 0x0A then [] # re_split cs
      else (case re_split cs of
              [] \<Rightarrow> [[c]]
            | w # ws \<Rightarrow> (c # w) # ws))"

abbreviation apostrophe :: string where
  "apostrophe \<equiv> [CHR 0x27]"

section \<open>Stores, events and the remote service\<close>

definition API_BASE_URL :: string where
  "API_BASE_URL = ''https://storeapi.parcelninja.com/api/v1''"

record store =
  store_id :: string
  name :: string
  username :: string
  password :: string

text \<open>
  The messages put on \<^verbatim>\<open>api_queue\<close>: \<^verbatim>\<open>{"type": "log", "msg": m, "level": l}\<close>, where the
  level key may be missing, and \<^verbatim>\<open>{"type": "done", "results": rs}\<close>.
\<close>

datatype event =
    Log_event string "string option"
  | Done_event "pydict list"

text \<open>The level under which \<^verbatim>\<open>process_api_queue\<close> logs a message:
  \<^verbatim>\<open>msg.get("level", "INFO")\<close>.\<close>

fun level_of :: "event \<Rightarrow> string option" where
  "level_of (Log_event m None) = Some ''INFO''"
| "level_of (Log_event m (Some l)) = Some l"
| "level_of (Done_event rs) = None"

fun is_log :: "event \<Rightarrow> bool" where
  "is_log (Log_event m l) = True"
| "is_log (Done_event rs) = False"

text \<open>
  The exceptions that can leave a lookup. \<^verbatim>\<open>run_api_search\<close> catches
  \<^verbatim>\<open>requests.RequestException\<close>; any other exception ends the worker thread.
\<close>

datatype py_exc =
    RequestException string
  | TypeError
  | AttributeError
  | ValueError

record request =
  url :: string
  headers :: "(string \<times> string) list"
  params :: "(string \<times> json) list"
  auth :: "string \<times> string"
  timeout :: nat

text \<open>A response: \<^verbatim>\<open>status_code\<close>, \<^verbatim>\<open>text\<close>, and what \<^verbatim>\<open>response.json()\<close> returns or raises.\<close>

record response =
  status_code :: nat
  text_body :: string
  json_body :: "py_exc + json"

text \<open>
  What the worker reads from its surroundings while it handles the term at one index:
  the stop flag as \<^verbatim>\<open>stop_event.is_set()\<close> finds it, the day that \<^verbatim>\<open>datetime.utcnow()\<close> reads,
  counted from 1 January 1970 (the system clock reads no earlier day), and the outcome of
  \<^verbatim>\<open>requests.get\<close> for a request. A date is the number of days from 1 January 1970 to it,
  an integer, so that subtracting \<^verbatim>\<open>timedelta(days=730)\<close> is a subtraction of integers.
\<close>

record term_env =
  stop_is_set :: bool
  utcnow :: nat
  http_get :: "request \<Rightarrow> py_exc + response"

section \<open>The search orchestrator\<close>

text \<open>The placeholder appended for a term without a result.\<close>

definition synthetic_record :: "string \<Rightarrow> string \<Rightarrow> store \<Rightarrow> pydict" where
  "synthetic_record trm reason st =
     [(''shipment_id_searched'', JStr trm),
      (''status_error'', JStr reason),
      (''_store_name'', JStr (name st))]"

text \<open>
  The branch \<^verbatim>\<open>search_type == 'outbound' and search_field == 'Client ID'\<close>:
  \<open>point_request\<close> is what it passes to \<^verbatim>\<open>requests.get\<close>. The result of \<open>point_lookup\<close> is
  the events put on the queue and either the exception raised or the records appended to
  \<^verbatim>\<open>results\<close> together with \<^verbatim>\<open>found_for_term\<close>. \<^verbatim>\<open>data['_store_name'] = ...\<close> raises TypeError
  unless \<^verbatim>\<open>data\<close> is a dict.
\<close>

definition point_request :: "store \<Rightarrow> string \<Rightarrow> request" where
  "point_request st trm =
     \<lparr>url = API_BASE_URL @ ''/outbounds/0'',
      headers = [(''Accept'', ''application/json''), (''X-Client-Id'', trm)],
      params = [],
      auth = (username st, password st),
      timeout = 20\<rparr>"

definition point_lookup ::
  "store \<Rightarrow> string \<Rightarrow> term_env \<Rightarrow> event list \<times> (py_exc + pydict list \<times> bool)" where
  "point_lookup st trm env =
     (let ev = Log_event (''GET '' @ API_BASE_URL @ ''/outbounds/0'' @ '' [X-Client-Id: '' @ trm @ '']'')
                 (Some ''DEBUG'')
      in case http_get env (point_request st trm) of
           Inl e \<Rightarrow> ([ev], Inl e)
         | Inr resp \<Rightarrow>
             if status_code resp = 200 then
               (case json_body resp of
                  Inl e \<Rightarrow> ([ev], Inl e)
                | Inr (JObj data) \<Rightarrow>
                    ([ev], Inr ([dict_set ''_store_name'' (JStr (name st)) data], True))
                | Inr _ \<Rightarrow> ([ev], Inl TypeError))
             else if status_code resp = 404 then
               ([ev, Log_event (''Term '' @ apostrophe @ trm @ apostrophe @ '' not found (404).'')
                       (Some ''WARN'')],
                Inr ([], False))
             else
               ([ev, Log_event (''Error for '' @ apostrophe @ trm @ apostrophe @ '': ''
                         @ ''HTTP '' @ str_nat (status_code resp) @ '': ''
                         @ take 50 (text_body resp))
                       (Some ''ERROR'')],
                Inr ([], False)))"

text \<open>
  \<^verbatim>\<open>for item in found_items: item['_store_name'] = store.name; results.append(item)\<close>
  over a list: an item that is not a dict raises TypeError.
\<close>

fun tag_items :: "string \<Rightarrow> json list \<Rightarrow> py_exc + pydict list" where
  "tag_items n [] = Inr []"
| "tag_items n (JObj item # items) =
     (case tag_items n items of
        Inl e \<Rightarrow> Inl e
      | Inr rs \<Rightarrow> Inr (dict_set ''_store_name'' (JStr n) item # rs))"
| "tag_items n (item # items) = Inl TypeError"

text \<open>
  The same loop over any truthy value: a number or \<^verbatim>\<open>True\<close> is not iterable, and the
  items of a string or of a dict are strings, which take no item assignment.
\<close>

fun tag_found_items :: "string \<Rightarrow> json \<Rightarrow> py_exc + pydict list" where
  "tag_found_items n (JList items) = tag_items n items"
| "tag_found_items n v = Inl TypeError"

text \<open>
  The general branch: \<open>windowed_request\<close> is what it passes to \<^verbatim>\<open>requests.get\<close>, with
  the local \<^verbatim>\<open>api_search_field\<close> computed as in the source. \<^verbatim>\<open>strftime\<close> (for the format
  \<^verbatim>\<open>'%Y%m%d'\<close>) belongs to the standard library and is a parameter. \<^verbatim>\<open>data.get\<close> raises
  AttributeError unless \<^verbatim>\<open>data\<close> is a dict.
\<close>

definition windowed_request ::
  "(int \<Rightarrow> string) \<Rightarrow> store \<Rightarrow> string \<Rightarrow> string \<Rightarrow> string \<Rightarrow> int \<Rightarrow> request" where
  "windowed_request strftime st search_type search_field trm end_date =
     (let start_date = end_date - 730;
          api_search_field =
            (case map_of [(''Client ID'', ''clientId''),
                          (''Channel ID'', ''channelId''),
                          (''Supplier Reference'', ''supplierReference'')] search_field of
               Some f \<Rightarrow> f
             | None \<Rightarrow> ''search'')
      in \<lparr>url = API_BASE_URL @ ''/'' @ search_type @ ''s'',
          headers = [(''Accept'', ''application/json'')],
          params = [(''startDate'', JStr (strftime start_date)),
                    (''endDate'', JStr (strftime end_date)),
                    (''search'', JStr trm),
                    (''pageSize'', JInt 100)],
          auth = (username st, password st),
          timeout = 30\<rparr>)"

text \<open>\<^verbatim>\<open>data.get(f"{search_type}s", [])\<close>.\<close>

definition found_items_of :: "string \<Rightarrow> pydict \<Rightarrow> json" where
  "found_items_of search_type data =
     (case dict_get data (search_type @ ''s'') of Some v \<Rightarrow> v | None \<Rightarrow> JList [])"

definition windowed_search ::
  "(int \<Rightarrow> string) \<Rightarrow> store \<Rightarrow> string \<Rightarrow> string \<Rightarrow> string \<Rightarrow> term_env
     \<Rightarrow> event list \<times> (py_exc + pydict list \<times> bool)" where
  "windowed_search strftime st search_type search_field trm env =
     (let end_date = int (utcnow env);
          ev = Log_event (''GET '' @ API_BASE_URL @ ''/'' @ search_type @ ''s''
                  @ '' ?search='' @ trm) (Some ''DEBUG'')
      in case http_get env
                (windowed_request strftime st search_type search_field trm end_date) of
           Inl e \<Rightarrow> ([ev], Inl e)
         | Inr resp \<Rightarrow>
             if status_code resp = 200 then
               (case json_body resp of
                  Inl e \<Rightarrow> ([ev], Inl e)
                | Inr (JObj data) \<Rightarrow>
                    (let found_items = found_items_of search_type data
                     in if truthy found_items then
                          (case tag_found_items (name st) found_items of
                             Inl e \<Rightarrow> ([ev], Inl e)
                           | Inr rs \<Rightarrow> ([ev], Inr (rs, True)))
                        else
                          ([ev, Log_event (''Term '' @ apostrophe @ trm @ apostrophe
                                    @ '' returned 0 results.'') (Some ''WARN'')],
                           Inr ([], False)))
                | Inr _ \<Rightarrow> ([ev], Inl AttributeError))
             else
               ([ev, Log_event (''Error for '' @ apostrophe @ trm @ apostrophe
                         @ '': HTTP '' @ str_nat (status_code resp)) (Some ''ERROR'')],
                Inr ([], False)))"

text \<open>The choice between the two branches.\<close>

definition lookup ::
  "(int \<Rightarrow> string) \<Rightarrow> store \<Rightarrow> string \<Rightarrow> string \<Rightarrow> string \<Rightarrow> term_env
     \<Rightarrow> event list \<times> (py_exc + pydict list \<times> bool)" where
  "lookup strftime st search_type search_field trm env =
     (if search_type = ''outbound'' \<and> search_field = ''Client ID''
      then point_lookup st trm env
      else windowed_search strftime st search_type search_field trm env)"

text \<open>
  One pass through the loop body after the stop check: the progress message, the
  \<^verbatim>\<open>try\<close> block and its \<^verbatim>\<open>except requests.RequestException\<close> handler. The result is the
  events put on the queue and either the exception that leaves the loop or the records
  appended for the term.
\<close>

definition process_term ::
  "(int \<Rightarrow> string) \<Rightarrow> store \<Rightarrow> string \<Rightarrow> string \<Rightarrow> nat \<Rightarrow> nat \<Rightarrow> string \<Rightarrow> term_env
     \<Rightarrow> event list \<times> (py_exc + pydict list)" where
  "process_term strftime st search_type search_field total_terms index trm env =
     (let ev0 = Log_event (''Searching ('' @ str_nat (index + 1) @ ''/'' @ str_nat total_terms
                    @ ''): '' @ trm @ ''...'') None
      in case lookup strftime st search_type search_field trm env of
           (evs, Inr (rs, found_for_term)) \<Rightarrow>
             (ev0 # evs,
              Inr (if \<not> found_for_term
                   then rs @ [synthetic_record trm ''Not Found'' st]
                   else rs))
         | (evs, Inl (RequestException d)) \<Rightarrow>
             (ev0 # evs @ [Log_event (''Exception for '' @ apostrophe @ trm @ apostrophe
                               @ '': '' @ d) (Some ''ERROR'')],
              Inr [synthetic_record trm (''Network Error: '' @ d) st])
         | (evs, Inl e) \<Rightarrow> (ev0 # evs, Inl e))"

text \<open>
  The loop of \<^verbatim>\<open>run_api_search\<close> from position \<open>index\<close> on, with \<open>results\<close> as accumulated
  so far. \<open>env i\<close> is what the worker finds while it is at index \<open>i\<close>.
\<close>

fun search_loop ::
  "(int \<Rightarrow> string) \<Rightarrow> store \<Rightarrow> string \<Rightarrow> string \<Rightarrow> nat \<Rightarrow> nat \<Rightarrow> string list
     \<Rightarrow> (nat \<Rightarrow> term_env) \<Rightarrow> pydict list \<Rightarrow> event list \<times> (py_exc + pydict list)" where
  "search_loop strftime st search_type search_field total_terms index [] env results =
     ([], Inr results)"
| "search_loop strftime st search_type search_field total_terms index (trm # terms) env results =
     (if stop_is_set (env index)
      then ([Log_event ''Search stopped by user.'' (Some ''WARN'')], Inr results)
      else (case process_term strftime st search_type search_field total_terms index trm (env index) of
              (evs, Inl e) \<Rightarrow> (evs, Inl e)
            | (evs, Inr rs) \<Rightarrow>
                (case search_loop strftime st search_type search_field total_terms (index + 1)
                        terms env (results @ rs) of
                   (evs', r) \<Rightarrow> (evs @ evs', r))))"

text \<open>
  \<^verbatim>\<open>run_api_search\<close>: everything the worker thread puts on \<^verbatim>\<open>api_queue\<close>, and the
  exception that ended the thread, if one did. The \<^verbatim>\<open>done\<close> message is put only when the
  loop is left normally.
\<close>

definition run_api_search ::
  "(int \<Rightarrow> string) \<Rightarrow> store \<Rightarrow> string \<Rightarrow> string \<Rightarrow> string list \<Rightarrow> (nat \<Rightarrow> term_env)
     \<Rightarrow> event list \<times> py_exc option" where
  "run_api_search strftime st search_type search_field terms env =
     (case search_loop strftime st search_type search_field (length terms) 0 terms env [] of
        (evs, Inl e) \<Rightarrow> (evs, Some e)
      | (evs, Inr results) \<Rightarrow> (evs @ [Done_event results], None))"

section \<open>The table projector and the CSV exporter\<close>

text \<open>
  \<^verbatim>\<open>if '_store_name' in flat: flat['Store'] = flat.pop('_store_name')\<close>, on a flattened
  record.
\<close>

definition rename_store :: "pydict \<Rightarrow> pydict" where
  "rename_store flat =
     (case dict_get flat ''_store_name'' of
        Some v \<Rightarrow> dict_set ''Store'' v (dict_remove ''_store_name'' flat)
      | None \<Rightarrow> flat)"

text \<open>The list \<^verbatim>\<open>flat_results\<close> that both \<^verbatim>\<open>update_results_table\<close> and \<^verbatim>\<open>export_to_csv\<close>
  build from the stored records.\<close>

definition flat_results_of :: "(json list \<Rightarrow> string) \<Rightarrow> pydict list \<Rightarrow> pydict list" where
  "flat_results_of dumps results =
     map (\<lambda>record. rename_store (flatten_dict dumps record [] ''.'')) results"

text \<open>
  \<^verbatim>\<open>['Store'] + sorted([h for h in all_headers if h != 'Store'])\<close>, where the set
  \<^verbatim>\<open>all_headers\<close> holds \<^verbatim>\<open>'Store'\<close> and every key of every flattened record. The set is
  kept as a list without duplicates; Python compares strings by code points, lexicographically.
\<close>

definition sorted_headers :: "pydict list \<Rightarrow> string list" where
  "sorted_headers flat_results =
     ''Store'' # sort (filter (\<lambda>h. h \<noteq> ''Store'')
                        (remdups (''Store'' # concat (map (map fst) flat_results))))"

text \<open>\<^verbatim>\<open>[record.get(col, "") for col in sorted_headers]\<close>.\<close>

definition row_values :: "string list \<Rightarrow> pydict \<Rightarrow> json list" where
  "row_values cols record =
     map (\<lambda>col. case dict_get record col of Some v \<Rightarrow> v | None \<Rightarrow> JStr []) cols"

text \<open>The tag of a table row: \<^verbatim>\<open>'error'\<close> when \<^verbatim>\<open>status_error\<close> is present and truthy.\<close>

definition row_tag :: "pydict \<Rightarrow> string" where
  "row_tag record =
     (case dict_get record ''status_error'' of
        Some v \<Rightarrow> if truthy v then ''error'' else ''normal''
      | None \<Rightarrow> ''normal'')"

record tree_view =
  columns :: "string list"
  rows :: "(json list \<times> string) list"

text \<open>\<^verbatim>\<open>update_results_table\<close>: the table is cleared, and left without columns when
  there are no results.\<close>

definition update_results_table :: "(json list \<Rightarrow> string) \<Rightarrow> pydict list \<Rightarrow> tree_view" where
  "update_results_table dumps results =
     (if results = [] then \<lparr>columns = [], rows = []\<rparr>
      else
        (let flat_results = flat_results_of dumps results;
             hs = sorted_headers flat_results
         in \<lparr>columns = hs,
             rows = map (\<lambda>record. (row_values hs record, row_tag record)) flat_results\<rparr>))"

text \<open>What a handler of the window does besides changing the state.\<close>

datatype effect =
    Show_info string string
  | Show_warning string string
  | Show_error string string
  | Log_line string string
  | Write_csv string "string list" "json list list"
  | Thread_start store string string "string list"

text \<open>
  \<^verbatim>\<open>export_to_csv\<close>. \<open>filepath\<close> is the answer of the file dialog (empty when it is
  cancelled) and \<open>io_error\<close> the IOError raised while the file is written, if any.
  \<^verbatim>\<open>csv.DictWriter\<close> writes the header and, for every record, the values under the
  header's names with \<^verbatim>\<open>''\<close> for a missing one.
\<close>

definition all_headers :: "pydict list \<Rightarrow> string list" where
  "all_headers flat_results =
     ''Store'' # sort (remdups (filter (\<lambda>key. key \<noteq> ''Store'')
                                 (concat (map (map fst) flat_results))))"

definition export_to_csv ::
  "(json list \<Rightarrow> string) \<Rightarrow> pydict list \<Rightarrow> string \<Rightarrow> string option \<Rightarrow> effect list" where
  "export_to_csv dumps results_data filepath io_error =
     (if results_data = [] then [Show_info ''No Data'' ''There is no data to export.'']
      else if filepath = [] then []
      else
        (let flat_results = flat_results_of dumps results_data;
             hs = all_headers flat_results
         in case io_error of
              None \<Rightarrow>
                [Write_csv filepath hs (map (row_values hs) flat_results),
                 Show_info ''Success'' (''Successfully exported data to:'' @ [CHR 0x0A] @ filepath),
                 Log_line (''Data exported to '' @ filepath) ''INFO'']
            | Some e \<Rightarrow>
                [Show_error ''Export Error'' (''Could not write to file: '' @ e),
                 Log_line (''Could not write to file: '' @ e) ''ERROR'']))"

section \<open>Starting a search\<close>

text \<open>The fields of the window that \<^verbatim>\<open>start_search\<close> reads or writes; a button is
  \<open>True\<close> when its state is \<^verbatim>\<open>"normal"\<close>.\<close>

record app =
  stores :: "store list"
  results_data :: "pydict list"
  stop_event :: bool
  is_searching :: bool
  tree :: tree_view
  search_button :: bool
  stop_button :: bool
  refresh_button :: bool
  export_button :: bool
  status_label :: string

text \<open>
  \<^verbatim>\<open>start_search\<close>, given the contents of the four input variables. The lines written
  with \<^verbatim>\<open>self.log\<close> are returned as effects, without their time stamp.
\<close>

definition start_search :: "app \<Rightarrow> string \<Rightarrow> string \<Rightarrow> string \<Rightarrow> string \<Rightarrow> app \<times> effect list" where
  "start_search a store_name search_type_var search_field search_terms_raw =
     (let search_type = lower search_type_var
      in if strip search_terms_raw = []
         then (a, [Show_warning ''Input Required'' ''Please enter one or more search terms.''])
         else
           (let search_terms =
                  map strip (filter (\<lambda>trm. strip trm \<noteq> []) (re_split search_terms_raw))
            in case find (\<lambda>s. name s = store_name) (stores a) of
                 None \<Rightarrow> (a, [Show_error ''Error'' ''Could not find selected store credentials.''])
               | Some selected_store \<Rightarrow>
                   (a\<lparr>is_searching := True,
                      stop_event := False,
                      search_button := False,
                      stop_button := True,
                      refresh_button := False,
                      export_button := False,
                      tree := (tree a)\<lparr>rows := []\<rparr>,
                      results_data := [],
                      status_label := ''Searching in '' @ store_name @ '' for ''
                         @ str_nat (length search_terms) @ '' term(s)...''\<rparr>,
                    [Log_line (''Starting search in store '' @ apostrophe @ store_name @ apostrophe
                         @ '' ('' @ store_id selected_store @ '')'') ''INFO'',
                     Log_line (''Type: '' @ search_type @ '', Field: '' @ search_field
                         @ '', Terms: '' @ str_nat (length search_terms)) ''INFO'',
                     Thread_start selected_store search_type search_field search_terms])))"

text \<open>A record without a dict among its values, and one with scalar values only.\<close>

definition no_nested_mapping :: "pydict \<Rightarrow> bool" where
  "no_nested_mapping d = list_all (\<lambda>(k, v). case v of JObj d' \<Rightarrow> False | _ \<Rightarrow> True) d"

definition all_scalar :: "pydict \<Rightarrow> bool" where
  "all_scalar d = list_all (\<lambda>(k, v). is_scalar v) d"

section \<open>Sample inputs\<close>

text \<open>
  A store, stand-ins for \<^verbatim>\<open>strftime\<close> and \<^verbatim>\<open>json.dumps\<close>, responses of the remote service
  and surroundings of the worker, used where a property is evaluated on a concrete run.
\<close>

definition sample_store :: store where
  "sample_store = \<lparr>store_id = ''7b0fb2ac'', name = ''Diesel'', username = ''u'', password = ''p''\<rparr>"

definition sample_strftime :: "int \<Rightarrow> string" where
  "sample_strftime d = (if d = 20000 then ''20241004'' else ''20221005'')"

definition found_response :: "json \<Rightarrow> response" where
  "found_response body = \<lparr>status_code = 200, text_body = [], json_body = Inr body\<rparr>"

definition status_response :: "nat \<Rightarrow> response" where
  "status_response code = \<lparr>status_code = code, text_body = ''gone'', json_body = Inl ValueError\<rparr>"

definition sample_point_get :: "request \<Rightarrow> py_exc + response" where
  "sample_point_get req =
     (if map_of (headers req) ''X-Client-Id'' = Some ''A1''
      then Inr (found_response (JObj [(''id'', JInt 1)]))
      else Inr (status_response 404))"

definition sample_env :: "(request \<Rightarrow> py_exc + response) \<Rightarrow> nat \<Rightarrow> term_env" where
  "sample_env get i = \<lparr>stop_is_set = False, utcnow = 20000, http_get = get\<rparr>"

definition sample_stop_env :: "nat \<Rightarrow> (request \<Rightarrow> py_exc + response) \<Rightarrow> nat \<Rightarrow> term_env" where
  "sample_stop_env stop_from get i =
     \<lparr>stop_is_set = (stop_from \<le> i), utcnow = 20000, http_get = get\<rparr>"

definition sample_null_get :: "request \<Rightarrow> py_exc + response" where
  "sample_null_get req = Inr (found_response JNull)"

definition sample_list_get :: "request \<Rightarrow> py_exc + response" where
  "sample_list_get req = Inr (found_response (JList []))"

definition sample_windowed_get :: "request \<Rightarrow> py_exc + response" where
  "sample_windowed_get req =
     Inr (found_response (JObj [(''inbounds'',
            JList [JObj [(''id'', JInt 1)], JObj [(''id'', JInt 2)]])]))"

definition sample_404_get :: "request \<Rightarrow> py_exc + response" where
  "sample_404_get req = Inr (status_response 404)"




definition sample_dumps :: "json list \<Rightarrow> string" where
  "sample_dumps xs = (if xs = [] then ''[]'' else ''[...]'')"

definition sample_results :: "pydict list" where
  "sample_results =
     [[(''a'', JObj [(''b'', JInt 5)]), (''_store_name'', JStr ''Diesel'')],
      [(''shipment_id_searched'', JStr ''X''), (''status_error'', JStr ''Not Found''),
       (''_store_name'', JStr ''Diesel'')]]"

definition sample_app :: app where
  "sample_app =
     \<lparr>stores = [sample_store],
      results_data = sample_results,
      stop_event = False,
      is_searching = False,
      tree = \<lparr>columns = [''Store'', ''a.b''], rows = [([JStr ''Diesel'', JInt 5], ''normal'')]\<rparr>,
      search_button = True,
      stop_button = False,
      refresh_button = True,
      export_button = True,
      status_label = ''Search complete. Found 1 valid record(s).''\<rparr>"

section \<open>Vocabulary for the properties\<close>

text \<open>The records that the pass for one term appends to \<^verbatim>\<open>results\<close> (none when an
  exception leaves the loop).\<close>

definition term_records ::
  "(int \<Rightarrow> string) \<Rightarrow> store \<Rightarrow> string \<Rightarrow> string \<Rightarrow> nat \<Rightarrow> nat \<Rightarrow> string \<Rightarrow> term_env
     \<Rightarrow> pydict list" where
  "term_records strftime st search_type search_field total_terms index trm env =
     (case snd (process_term strftime st search_type search_field total_terms index trm env) of
        Inr rs \<Rightarrow> rs
      | Inl e \<Rightarrow> [])"

text \<open>The events that the pass for one term puts on the queue.\<close>

definition term_events ::
  "(int \<Rightarrow> string) \<Rightarrow> store \<Rightarrow> string \<Rightarrow> string \<Rightarrow> nat \<Rightarrow> nat \<Rightarrow> string \<Rightarrow> term_env
     \<Rightarrow> event list" where
  "term_events strftime st search_type search_field total_terms index trm env =
     fst (process_term strftime st search_type search_field total_terms index trm env)"

text \<open>Whether the pass for one term ends without an exception leaving the loop.\<close>

definition term_completes ::
  "(int \<Rightarrow> string) \<Rightarrow> store \<Rightarrow> string \<Rightarrow> string \<Rightarrow> nat \<Rightarrow> nat \<Rightarrow> string \<Rightarrow> term_env
     \<Rightarrow> bool" where
  "term_completes strftime st search_type search_field total_terms index trm env =
     (case snd (process_term strftime st search_type search_field total_terms index trm env) of
        Inr rs \<Rightarrow> True
      | Inl e \<Rightarrow> False)"

text \<open>The request that the lookup for a term sends.\<close>

definition request_of ::
  "(int \<Rightarrow> string) \<Rightarrow> store \<Rightarrow> string \<Rightarrow> string \<Rightarrow> string \<Rightarrow> term_env \<Rightarrow> request" where
  "request_of strftime st search_type search_field trm env =
     (if search_type = ''outbound'' \<and> search_field = ''Client ID''
      then point_request st trm
      else windowed_request strftime st search_type search_field trm (int (utcnow env)))"

text \<open>
  Whether the lookup for a term is the direct one; whether it raises
  \<^verbatim>\<open>requests.RequestException\<close> with description \<open>d\<close>, from \<^verbatim>\<open>requests.get\<close> or from
  \<^verbatim>\<open>response.json()\<close> on a response with status 200 (the only place where the body is
  decoded); and the number of terms that the loop starts on: those before the first index
  at which it finds the stop flag set.
\<close>

definition is_point_lookup :: "string \<Rightarrow> string \<Rightarrow> bool" where
  "is_point_lookup search_type search_field =
     (search_type = ''outbound'' \<and> search_field = ''Client ID'')"

definition raises_request_exception ::
  "(int \<Rightarrow> string) \<Rightarrow> store \<Rightarrow> string \<Rightarrow> string \<Rightarrow> string \<Rightarrow> term_env \<Rightarrow> string \<Rightarrow> bool" where
  "raises_request_exception strftime st search_type search_field trm env d =
     (case http_get env (request_of strftime st search_type search_field trm env) of
        Inl e \<Rightarrow> e = RequestException d
      | Inr resp \<Rightarrow> status_code resp = 200 \<and> json_body resp = Inl (RequestException d))"

fun processed_count :: "(nat \<Rightarrow> term_env) \<Rightarrow> nat \<Rightarrow> string list \<Rightarrow> nat" where
  "processed_count env index [] = 0"
| "processed_count env index (trm # terms) =
     (if stop_is_set (env index) then 0 else Suc (processed_count env (index + 1) terms))"

text \<open>The notice of a stop, and the level test on an event.\<close>

definition stop_notice :: event where
  "stop_notice = Log_event ''Search stopped by user.'' (Some ''WARN'')"

definition has_level :: "string \<Rightarrow> event \<Rightarrow> bool" where
  "has_level l e = (level_of e = Some l)"

text \<open>
  The flattener described without the code: \<open>leaves\<close> lists, in enumeration order, every
  path of keys of a nested record that ends at a value which is not a dict; \<open>join_key\<close>
  joins a path to a prefix with the separator, where an empty prefix is replaced by the
  key without a separator; \<open>encode_value\<close> replaces a list by its serialized text and
  leaves any other value as it is.
\<close>

fun encode_value :: "(json list \<Rightarrow> string) \<Rightarrow> json \<Rightarrow> json" where
  "encode_value dumps (JList xs) = JStr (dumps xs)"
| "encode_value dumps v = v"

fun leaves :: "pydict \<Rightarrow> (string list \<times> json) list" where
  "leaves [] = []"
| "leaves ((k, JObj d') # d) = map (\<lambda>(ks, v). (k # ks, v)) (leaves d') @ leaves d"
| "leaves ((k, v) # d) = ([k], v) # leaves d"

fun join_key :: "string \<Rightarrow> string \<Rightarrow> string list \<Rightarrow> string" where
  "join_key p sep [] = p"
| "join_key p sep (k # ks) = join_key (if p \<noteq> [] then p @ sep @ k else k) sep ks"

definition flat_leaf :: "(json list \<Rightarrow> string) \<Rightarrow> string \<Rightarrow> string \<Rightarrow> string list \<times> json \<Rightarrow> string \<times> json" where
  "flat_leaf dumps p sep leaf = (join_key p sep (fst leaf), encode_value dumps (snd leaf))"

definition encode_lists :: "(json list \<Rightarrow> string) \<Rightarrow> pydict \<Rightarrow> pydict" where
  "encode_lists dumps d = map (\<lambda>(k, v). (k, encode_value dumps v)) d"

section \<open>Properties of dictionaries\<close>

lemma dict_set_keys:
  "map fst (dict_set k v d) = (if k \<in> set (map fst d) then map fst d else map fst d @ [k])"
  by (induction k v d rule: dict_set.induct) auto

lemma dict_set_fresh: "k \<notin> set (map fst d) \<Longrightarrow> dict_set k v d = d @ [(k, v)]"
  by (induction k v d rule: dict_set.induct) auto

lemma dict_set_distinct: "distinct (map fst d) \<Longrightarrow> distinct (map fst (dict_set k v d))"
  by (simp add: dict_set_keys)

lemma dict_set_values: "snd ` set (dict_set k v d) \<subseteq> insert v (snd ` set d)"
  by (induction k v d rule: dict_set.induct) auto

lemma dict_get_set: "dict_get (dict_set k v d) k' = (if k' = k then Some v else dict_get d k')"
  by (induction k v d rule: dict_set.induct) auto

lemma dict_get_None_iff: "dict_get d k = None \<longleftrightarrow> k \<notin> fst ` set d"
  by (induction d k rule: dict_get.induct) auto

lemma dict_remove_keys: "fst ` set (dict_remove k d) \<subseteq> fst ` set d"
  by (induction k d rule: dict_remove.induct) auto

lemma foldl_dict_set_distinct:
  "distinct (map fst acc) \<Longrightarrow> distinct (map fst (foldl (\<lambda>d (k, v). dict_set k v d) acc xs))"
proof (induction xs arbitrary: acc)
  case Nil
  then show ?case by simp
next
  case (Cons x xs)
  obtain k v where x: "x = (k, v)" by (cases x)
  have "distinct (map fst (dict_set k v acc))"
    using Cons.prems by (rule dict_set_distinct)
  then have "distinct (map fst (foldl (\<lambda>d (k, v). dict_set k v d) (dict_set k v acc) xs))"
    by (rule Cons.IH)
  then show ?case by (simp add: x)
qed

lemma foldl_dict_set_values:
  "snd ` set (foldl (\<lambda>d (k, v). dict_set k v d) acc xs) \<subseteq> snd ` set acc \<union> snd ` set xs"
proof (induction xs arbitrary: acc)
  case Nil
  then show ?case by simp
next
  case (Cons x xs)
  obtain k v where x: "x = (k, v)" by (cases x)
  have "snd ` set (foldl (\<lambda>d (k, v). dict_set k v d) (dict_set k v acc) xs)
        \<subseteq> snd ` set (dict_set k v acc) \<union> snd ` set xs" by (rule Cons.IH)
  also have "\<dots> \<subseteq> insert v (snd ` set acc) \<union> snd ` set xs"
    using dict_set_values [of k v acc] by blast
  finally show ?case by (auto simp: x)
qed

lemma foldl_dict_set_id:
  "distinct (map fst (acc @ xs)) \<Longrightarrow> foldl (\<lambda>d (k, v). dict_set k v d) acc xs = acc @ xs"
proof (induction xs arbitrary: acc)
  case Nil
  then show ?case by simp
next
  case (Cons x xs)
  obtain k v where x: "x = (k, v)" by (cases x)
  from Cons.prems have fresh: "k \<notin> set (map fst acc)" by (auto simp: x)
  have "foldl (\<lambda>d (k, v). dict_set k v d) (acc @ [(k, v)]) xs = (acc @ [(k, v)]) @ xs"
    using Cons.prems by (intro Cons.IH) (simp add: x)
  then show ?case by (simp add: x dict_set_fresh [OF fresh])
qed

lemma dict_of_items_distinct: "distinct (map fst (dict_of_items xs))"
  unfolding dict_of_items_def by (rule foldl_dict_set_distinct) simp

lemma dict_of_items_values: "snd ` set (dict_of_items xs) \<subseteq> snd ` set xs"
  unfolding dict_of_items_def using foldl_dict_set_values [of "[]" xs] by simp

lemma dict_of_items_id: "distinct (map fst xs) \<Longrightarrow> dict_of_items xs = xs"
  unfolding dict_of_items_def using foldl_dict_set_id [of "[]" xs] by simp

section \<open>Properties of the flattener\<close>

lemma flatten_items_scalar:
  "v \<in> snd ` set (flatten_items dumps d parent_key sep) \<Longrightarrow> is_scalar v"
proof (induction dumps d parent_key sep rule: flatten_items.induct)
  case (1 dumps parent_key sep)
  then show ?case by simp
next
  case (2 dumps k d' d parent_key sep)
  let ?nk = "if parent_key \<noteq> [] then parent_key @ sep @ k else k"
  from "2.prems" have "v \<in> snd ` set (dict_of_items (flatten_items dumps d' ?nk sep))
      \<or> v \<in> snd ` set (flatten_items dumps d parent_key sep)"
    by (simp only: flatten_items.simps set_append image_Un Un_iff)
  then show ?case
  proof
    assume "v \<in> snd ` set (dict_of_items (flatten_items dumps d' ?nk sep))"
    then have "v \<in> snd ` set (flatten_items dumps d' ?nk sep)"
      using dict_of_items_values by blast
    then show ?thesis by (rule "2.IH"(1))
  next
    assume "v \<in> snd ` set (flatten_items dumps d parent_key sep)"
    then show ?thesis by (rule "2.IH"(2))
  qed
qed auto

lemma flatten_items_flat:
  "\<forall>v \<in> snd ` set d. is_scalar v \<Longrightarrow> flatten_items dumps d [] sep = d"
proof (induction d)
  case Nil
  then show ?case by simp
next
  case (Cons p d)
  obtain k v where p: "p = (k, v)" by (cases p)
  from Cons.prems have sc: "is_scalar v" by (simp add: p)
  from Cons have IH: "flatten_items dumps d [] sep = d" by simp
  from sc show ?case unfolding p by (cases v) (simp_all add: IH)
qed

lemma flatten_dict_scalar:
  "v \<in> snd ` set (flatten_dict dumps d parent_key sep) \<Longrightarrow> is_scalar v"
proof -
  assume "v \<in> snd ` set (flatten_dict dumps d parent_key sep)"
  then have "v \<in> snd ` set (flatten_items dumps d parent_key sep)"
    unfolding flatten_dict_def
    using dict_of_items_values [of "flatten_items dumps d parent_key sep"] by (rule rev_subsetD)
  then show ?thesis by (rule flatten_items_scalar)
qed

lemma flatten_dict_distinct: "distinct (map fst (flatten_dict dumps d parent_key sep))"
  unfolding flatten_dict_def by (rule dict_of_items_distinct)

lemma flatten_dict_flat:
  "distinct (map fst d) \<Longrightarrow> \<forall>v \<in> snd ` set d. is_scalar v \<Longrightarrow> flatten_dict dumps d [] sep = d"
  by (simp add: flatten_dict_def flatten_items_flat dict_of_items_id)

lemma all_scalar_iff: "all_scalar d \<longleftrightarrow> (\<forall>v \<in> snd ` set d. is_scalar v)"
  unfolding all_scalar_def list_all_iff by force

lemma dict_get_map_of: "dict_get d k = map_of d k"
  by (induction d k rule: dict_get.induct) auto

lemma map_of_dict_set: "map_of (dict_set k v d) = (map_of d)(k \<mapsto> v)"
  by (induction k v d rule: dict_set.induct) (auto simp: fun_eq_iff)

lemma map_of_foldl_dict_set:
  "map_of (foldl (\<lambda>d (k, v). dict_set k v d) acc xs) = map_of acc ++ map_of (rev xs)"
proof (induction xs arbitrary: acc)
  case Nil
  then show ?case by simp
next
  case (Cons x xs)
  obtain k v where x: "x = (k, v)" by (cases x)
  have "map_of (foldl (\<lambda>d (k, v). dict_set k v d) (dict_set k v acc) xs)
      = map_of (dict_set k v acc) ++ map_of (rev xs)" by (rule Cons.IH)
  then show ?case by (simp add: x map_of_dict_set)
qed

lemma map_of_dict_of_items: "map_of (dict_of_items xs) = map_of (rev xs)"
  unfolding dict_of_items_def using map_of_foldl_dict_set [of "[]" xs] by simp

lemma leaves_join_shift:
  "map (flat_leaf dumps p sep) (map (\<lambda>(ks, v). (k # ks, v)) ls)
     = map (flat_leaf dumps (if p \<noteq> [] then p @ sep @ k else k) sep) ls"
  by (induction ls) (auto simp: flat_leaf_def)


lemma map_of_rev_distinct: "distinct (map fst xs) \<Longrightarrow> map_of (rev xs) = map_of xs"
proof (induction xs)
  case Nil
  then show ?case by simp
next
  case (Cons x xs)
  obtain k v where x: "x = (k, v)" by (cases x)
  from Cons.prems have fresh: "map_of xs k = None"
    by (simp add: x map_of_eq_None_iff)
  from Cons have IH: "map_of (rev xs) = map_of xs" by simp
  show ?case
    by (auto simp: x IH fresh map_add_def fun_eq_iff split: option.split)
qed

lemma flatten_items_leaves_map:
  "map_of (rev (flatten_items dumps d p sep))
     = map_of (rev (map (flat_leaf dumps p sep) (leaves d)))"
proof (induction dumps d p sep rule: flatten_items.induct)
  case (1 dumps parent_key sep)
  then show ?case by simp
next
  case (2 dumps k d' d parent_key sep)
  let ?nk = "if parent_key \<noteq> [] then parent_key @ sep @ k else k"
  have "map_of (rev (dict_of_items (flatten_items dumps d' ?nk sep)))
      = map_of (dict_of_items (flatten_items dumps d' ?nk sep))"
    by (rule map_of_rev_distinct) (rule dict_of_items_distinct)
  also have "\<dots> = map_of (rev (flatten_items dumps d' ?nk sep))"
    by (rule map_of_dict_of_items)
  also have "\<dots> = map_of (rev (map (flat_leaf dumps ?nk sep) (leaves d')))"
    by (rule "2.IH"(1))
  finally have inner: "map_of (rev (dict_of_items (flatten_items dumps d' ?nk sep)))
      = map_of (rev (map (flat_leaf dumps ?nk sep) (leaves d')))" .
  show ?case
    by (simp only: flatten_items.simps leaves.simps rev_append map_append map_of_append
          inner "2.IH"(2) leaves_join_shift)
qed (simp_all add: flat_leaf_def)

lemma flatten_dict_lookup:
  "dict_get (flatten_dict dumps d p sep) key
     = map_of (rev (map (flat_leaf dumps p sep) (leaves d))) key"
  by (simp add: dict_get_map_of flatten_dict_def map_of_dict_of_items flatten_items_leaves_map)

lemma flat_leaf_keys:
  "map fst (map (flat_leaf dumps p sep) ls) = map (\<lambda>leaf. join_key p sep (fst leaf)) ls"
  by (simp add: flat_leaf_def)

lemma flatten_items_leaves:
  "distinct (map (\<lambda>leaf. join_key p sep (fst leaf)) (leaves d)) \<Longrightarrow>
   flatten_items dumps d p sep = map (flat_leaf dumps p sep) (leaves d)"
proof (induction dumps d p sep rule: flatten_items.induct)
  case (1 dumps parent_key sep)
  then show ?case by simp
next
  case (2 dumps k d' d parent_key sep)
  let ?nk = "if parent_key \<noteq> [] then parent_key @ sep @ k else k"
  have shift: "map (\<lambda>leaf. join_key parent_key sep (fst leaf))
                 (map (\<lambda>(ks, v). (k # ks, v)) (leaves d'))
      = map (\<lambda>leaf. join_key ?nk sep (fst leaf)) (leaves d')"
    by (induction "leaves d'") auto
  from "2.prems" have d1: "distinct (map (\<lambda>leaf. join_key ?nk sep (fst leaf)) (leaves d'))"
    and d2: "distinct (map (\<lambda>leaf. join_key parent_key sep (fst leaf)) (leaves d))"
    by (simp_all only: leaves.simps map_append distinct_append shift)
  have i1: "flatten_items dumps d' ?nk sep = map (flat_leaf dumps ?nk sep) (leaves d')"
    using d1 by (rule "2.IH"(1))
  have i2: "flatten_items dumps d parent_key sep = map (flat_leaf dumps parent_key sep) (leaves d)"
    using d2 by (rule "2.IH"(2))
  have "dict_of_items (map (flat_leaf dumps ?nk sep) (leaves d'))
      = map (flat_leaf dumps ?nk sep) (leaves d')"
    by (rule dict_of_items_id) (simp only: flat_leaf_keys d1)
  then show ?case
    by (simp only: flatten_items.simps leaves.simps map_append i1 i2 leaves_join_shift)
qed (simp_all add: flat_leaf_def)

lemma flatten_dict_leaves:
  assumes "distinct (map (\<lambda>leaf. join_key p sep (fst leaf)) (leaves d))"
  shows "flatten_dict dumps d p sep = map (flat_leaf dumps p sep) (leaves d)"
proof -
  have "dict_of_items (map (flat_leaf dumps p sep) (leaves d))
      = map (flat_leaf dumps p sep) (leaves d)"
    by (rule dict_of_items_id) (simp only: flat_leaf_keys assms)
  then show ?thesis
    by (simp only: flatten_dict_def flatten_items_leaves [OF assms])
qed

lemma no_nested_leaves:
  "no_nested_mapping d \<Longrightarrow> leaves d = map (\<lambda>(k, v). ([k], v)) d"
proof (induction d)
  case Nil
  then show ?case by simp
next
  case (Cons x d)
  obtain k v where x: "x = (k, v)" by (cases x)
  from Cons.prems have nn: "no_nested_mapping d"
    and nv: "(case v of JObj d' \<Rightarrow> False | _ \<Rightarrow> True)"
    by (simp_all add: no_nested_mapping_def x)
  from nv show ?case by (cases v) (simp_all add: x Cons.IH [OF nn])
qed

lemma flatten_dict_no_nested:
  assumes "distinct (map fst d)" and "no_nested_mapping d"
  shows "flatten_dict dumps d [] sep = encode_lists dumps d"
proof -
  have l: "leaves d = map (\<lambda>(k, v). ([k], v)) d" using assms(2) by (rule no_nested_leaves)
  have k: "map (\<lambda>leaf. join_key [] sep (fst leaf)) (leaves d) = map fst d"
    unfolding l by (induction d) auto
  have "flatten_dict dumps d [] sep = map (flat_leaf dumps [] sep) (leaves d)"
    by (rule flatten_dict_leaves) (simp only: k assms(1))
  also have "\<dots> = encode_lists dumps d"
    unfolding l encode_lists_def by (induction d) (auto simp: flat_leaf_def)
  finally show ?thesis .
qed

lemma join_key_nonempty:
  "p \<noteq> [] \<Longrightarrow> join_key p sep ks = p @ concat (map (\<lambda>k. sep @ k) ks)"
  by (induction ks arbitrary: p) simp_all

text \<open>
  C7 (as amended). Flattening a flattened record again, with the empty prefix, gives the
  same record. A record with distinct keys and scalar values only is left as it is. A
  record with distinct keys and no dict among its values keeps its keys and their order;
  its list values become the strings \<^verbatim>\<open>json.dumps\<close> gives and its other values stay. In
  general the flattened record has distinct keys and holds, under the joined name of every
  path to a value that is not a dict, that value (a list serialized, any other value
  unchanged), the last such path winning when two paths have the same joined name; when
  no two have, the flattened record is the list of the leaves in enumeration order. A path
  that starts with a non-empty key is joined by putting the separator before every further
  key; an empty first key is dropped without a separator.
\<close>

theorem flatten_dict_idempotent:
  "flatten_dict dumps (flatten_dict dumps d p sep) [] sep' = flatten_dict dumps d p sep
   \<and> (distinct (map fst r) \<and> all_scalar r \<longrightarrow> flatten_dict dumps r [] sep = r)
   \<and> (distinct (map fst r') \<and> no_nested_mapping r' \<longrightarrow>
        flatten_dict dumps r' [] sep = encode_lists dumps r')
   \<and> (distinct (map (\<lambda>leaf. join_key p sep (fst leaf)) (leaves d)) \<longrightarrow>
        flatten_dict dumps d p sep = map (flat_leaf dumps p sep) (leaves d))
   \<and> dict_get (flatten_dict dumps d p sep) key
        = map_of (rev (map (flat_leaf dumps p sep) (leaves d))) key
   \<and> distinct (map fst (flatten_dict dumps d p sep))
   \<and> (k \<noteq> [] \<longrightarrow> join_key [] sep (k # ks) = k @ concat (map (\<lambda>k'. sep @ k') ks))
   \<and> join_key [] sep ([] # ks) = join_key [] sep ks"
proof (intro conjI impI)
  show "flatten_dict dumps (flatten_dict dumps d p sep) [] sep' = flatten_dict dumps d p sep"
  proof (rule flatten_dict_flat)
    show "distinct (map fst (flatten_dict dumps d p sep))" by (rule flatten_dict_distinct)
    show "\<forall>v\<in>snd ` set (flatten_dict dumps d p sep). is_scalar v"
      by (intro ballI) (rule flatten_dict_scalar)
  qed
next
  assume "distinct (map fst r) \<and> all_scalar r"
  then show "flatten_dict dumps r [] sep = r"
    by (simp add: flatten_dict_flat all_scalar_iff)
next
  assume "distinct (map fst r') \<and> no_nested_mapping r'"
  then show "flatten_dict dumps r' [] sep = encode_lists dumps r'"
    by (simp add: flatten_dict_no_nested)
next
  assume "distinct (map (\<lambda>leaf. join_key p sep (fst leaf)) (leaves d))"
  then show "flatten_dict dumps d p sep = map (flat_leaf dumps p sep) (leaves d)"
    by (rule flatten_dict_leaves)
next
  show "dict_get (flatten_dict dumps d p sep) key
        = map_of (rev (map (flat_leaf dumps p sep) (leaves d))) key"
    by (rule flatten_dict_lookup)
next
  show "distinct (map fst (flatten_dict dumps d p sep))" by (rule flatten_dict_distinct)
next
  assume "k \<noteq> []"
  then show "join_key [] sep (k # ks) = k @ concat (map (\<lambda>k'. sep @ k') ks)"
    by (simp add: join_key_nonempty)
next
  show "join_key [] sep ([] # ks) = join_key [] sep ks" by simp
qed

theorem flatten_dict_idempotent_witness:
  "distinct (map fst [(''id'', JInt 7), (''ref'', JStr ''A1'')])
   \<and> all_scalar [(''id'', JInt 7), (''ref'', JStr ''A1'')]
   \<and> flatten_dict (\<lambda>xs. ''[]'') [(''id'', JInt 7), (''ref'', JStr ''A1'')] [] ''.''
       = [(''id'', JInt 7), (''ref'', JStr ''A1'')]
   \<and> distinct (map fst [(''tags'', JList []), (''id'', JInt 7), (''_store_name'', JStr ''S'')])
   \<and> no_nested_mapping [(''tags'', JList []), (''id'', JInt 7), (''_store_name'', JStr ''S'')]
   \<and> flatten_dict (\<lambda>xs. ''[]'') [(''tags'', JList []), (''id'', JInt 7), (''_store_name'', JStr ''S'')] [] ''.''
       = [(''tags'', JStr ''[]''), (''id'', JInt 7), (''_store_name'', JStr ''S'')]
   \<and> distinct (map (\<lambda>leaf. join_key [] ''.'' (fst leaf))
        (leaves [(''a'', JObj [(''b'', JObj [(''c'', JInt 1)]), (''l'', JList [])]), (''z'', JInt 2)]))
   \<and> flatten_dict (\<lambda>xs. ''[]'')
        [(''a'', JObj [(''b'', JObj [(''c'', JInt 1)]), (''l'', JList [])]), (''z'', JInt 2)] [] ''.''
       = [(''a.b.c'', JInt 1), (''a.l'', JStr ''[]''), (''z'', JInt 2)]
   \<and> ''a'' \<noteq> []
   \<and> join_key [] ''.'' [''a'', ''b'', ''c''] = ''a.b.c''"
  using flatten_dict_idempotent [where dumps = "\<lambda>xs. ''[]''" and sep = "''.''" and p = "[]"
      and r = "[(''id'', JInt 7), (''ref'', JStr ''A1'')]"
      and r' = "[(''tags'', JList []), (''id'', JInt 7), (''_store_name'', JStr ''S'')]"
      and d = "[(''a'', JObj [(''b'', JObj [(''c'', JInt 1)]), (''l'', JList [])]), (''z'', JInt 2)]"
      and k = "''a''" and ks = "[''b'', ''c'']"]
  by (simp add: all_scalar_def no_nested_mapping_def encode_lists_def flat_leaf_def)

theorem flatten_list_value_counterexample:
  "no_nested_mapping [(''tags'', JList [])]
   \<and> flatten_dict (\<lambda>xs. ''[]'') [(''tags'', JList [])] [] ''.'' \<noteq> [(''tags'', JList [])]"
  by (simp add: no_nested_mapping_def flatten_dict_def dict_of_items_def)

text \<open>
  C9. With no stored results, \<^verbatim>\<open>export_to_csv\<close> only shows the information box
  \<^verbatim>\<open>"No Data"\<close>: no file is written and no error is shown or logged, whatever the file
  dialog and the file system would have answered.
\<close>

theorem export_empty_batch:
  "export_to_csv dumps [] filepath io_error
     = [Show_info ''No Data'' ''There is no data to export.'']"
  by (simp add: export_to_csv_def)

section \<open>Properties of one pass of the loop\<close>

lemma point_lookup_logs: "list_all is_log (fst (point_lookup st trm env))"
  unfolding point_lookup_def Let_def
  by (simp split: sum.split json.split)

lemma windowed_search_logs:
  "list_all is_log (fst (windowed_search strftime st search_type search_field trm env))"
  unfolding windowed_search_def Let_def
  by (simp split: sum.split json.split)

lemma lookup_logs:
  "list_all is_log (fst (lookup strftime st search_type search_field trm env))"
  unfolding lookup_def by (simp add: point_lookup_logs windowed_search_logs)

lemma process_term_logs:
  "list_all is_log
     (fst (process_term strftime st search_type search_field total_terms index trm env))"
proof -
  obtain evs r where l: "lookup strftime st search_type search_field trm env = (evs, r)"
    by (cases "lookup strftime st search_type search_field trm env")
  have "list_all is_log evs"
    using lookup_logs [of strftime st search_type search_field trm env] by (simp add: l)
  then show ?thesis
    unfolding process_term_def Let_def l
    by (simp split: sum.split py_exc.split prod.split)
qed

lemma term_events_logs:
  "list_all is_log (term_events strftime st search_type search_field total_terms index trm env)"
  unfolding term_events_def by (rule process_term_logs)

lemma process_term_eq:
  "process_term strftime st search_type search_field total_terms index trm env
     = (term_events strftime st search_type search_field total_terms index trm env,
        snd (process_term strftime st search_type search_field total_terms index trm env))"
  unfolding term_events_def by simp

section \<open>Properties of the loop\<close>

lemma search_loop_prefix:
  assumes "k \<le> length terms"
    and "\<forall>j<k. \<not> stop_is_set (env (index + j))"
    and "\<forall>j<k. term_completes strftime st search_type search_field total_terms (index + j)
              (terms ! j) (env (index + j))"
    and "k < length terms \<longrightarrow> stop_is_set (env (index + k))"
  shows "search_loop strftime st search_type search_field total_terms index terms env results
     = (concat (map (\<lambda>j. term_events strftime st search_type search_field total_terms
                       (index + j) (terms ! j) (env (index + j))) [0..<k])
          @ (if k < length terms then [stop_notice] else []),
        Inr (results @ concat (map (\<lambda>j. term_records strftime st search_type search_field
                       total_terms (index + j) (terms ! j) (env (index + j))) [0..<k])))"
  using assms
proof (induction terms arbitrary: k index results)
  case Nil
  then show ?case by simp
next
  case (Cons trm terms)
  show ?case
  proof (cases k)
    case 0
    with Cons.prems show ?thesis by (simp add: stop_notice_def)
  next
    case (Suc k')
    from Cons.prems Suc have ns: "\<not> stop_is_set (env index)" by auto
    from Cons.prems Suc
    have tc: "term_completes strftime st search_type search_field total_terms index trm (env index)"
      by fastforce
    then obtain rs where
      rs: "snd (process_term strftime st search_type search_field total_terms index trm (env index))
             = Inr rs"
      unfolding term_completes_def by (auto split: sum.splits)
    have tr: "term_records strftime st search_type search_field total_terms index trm (env index) = rs"
      unfolding term_records_def by (simp add: rs)
    have pt: "process_term strftime st search_type search_field total_terms index trm (env index)
        = (term_events strftime st search_type search_field total_terms index trm (env index), Inr rs)"
      using process_term_eq [of strftime st search_type search_field total_terms index trm "env index"]
      by (simp add: rs)
    have k': "k' \<le> length terms" using Cons.prems Suc by simp
    have a2: "\<forall>j<k'. \<not> stop_is_set (env (Suc index + j))"
      using Cons.prems(2) Suc by auto
    have a3: "\<forall>j<k'. term_completes strftime st search_type search_field total_terms
                (Suc index + j) (terms ! j) (env (Suc index + j))"
    proof (intro allI impI)
      fix j assume "j < k'"
      then have "Suc j < k" using Suc by simp
      with Cons.prems(3) have "term_completes strftime st search_type search_field total_terms
          (index + Suc j) ((trm # terms) ! Suc j) (env (index + Suc j))" by blast
      then show "term_completes strftime st search_type search_field total_terms
                (Suc index + j) (terms ! j) (env (Suc index + j))" by simp
    qed
    have a4: "k' < length terms \<longrightarrow> stop_is_set (env (Suc index + k'))"
      using Cons.prems(4) Suc by simp
    note IH = Cons.IH [OF k' a2 a3 a4, of "results @ rs"]
    show ?thesis
      using ns IH by (simp add: Suc pt tr map_upt_Suc del: upt_Suc)
  qed
qed

section \<open>Properties of the two lookups\<close>

lemma tag_items_Inr:
  "tag_items n xs = Inr rs \<Longrightarrow>
     \<exists>items. xs = map JObj items \<and> rs = map (dict_set ''_store_name'' (JStr n)) items"
proof (induction n xs arbitrary: rs rule: tag_items.induct)
  case (1 n)
  then show ?case by simp
next
  case (2 n item items)
  from "2.prems" obtain rs' where t: "tag_items n items = Inr rs'"
    and rs: "rs = dict_set ''_store_name'' (JStr n) item # rs'"
    by (auto split: sum.splits)
  from "2.IH" [OF t] obtain its where "items = map JObj its"
    and "rs' = map (dict_set ''_store_name'' (JStr n)) its" by blast
  then show ?case
    by (intro exI [of _ "item # its"]) (simp add: rs)
qed simp_all

lemma tag_items_map:
  "tag_items n (map JObj items) = Inr (map (dict_set ''_store_name'' (JStr n)) items)"
  by (induction items) simp_all

lemma tag_found_items_Inr:
  "tag_found_items n v = Inr rs \<Longrightarrow>
     \<exists>items. v = JList (map JObj items) \<and> rs = map (dict_set ''_store_name'' (JStr n)) items"
  by (cases v) (auto dest: tag_items_Inr)


text \<open>The events of a pass, by name.\<close>

lemma point_lookup_cases:
  assumes "point_lookup st trm env = (evs, Inr (rs, found))"
  shows "\<exists>resp. http_get env (point_request st trm) = Inr resp \<and>
     ((status_code resp = 200 \<and> found \<and>
        (\<exists>data. json_body resp = Inr (JObj data)
            \<and> rs = [dict_set ''_store_name'' (JStr (name st)) data]))
      \<or> (status_code resp \<noteq> 200 \<and> \<not> found \<and> rs = []))"
  using assms unfolding point_lookup_def Let_def
  by (auto split: sum.splits json.splits if_splits)

lemma windowed_search_cases:
  assumes "windowed_search strftime st search_type search_field trm env = (evs, Inr (rs, found))"
  shows "\<exists>resp.
     http_get env (windowed_request strftime st search_type search_field trm (int (utcnow env)))
       = Inr resp
     \<and> ((status_code resp = 200 \<and> found \<and>
           (\<exists>data items. json_body resp = Inr (JObj data)
              \<and> found_items_of search_type data = JList (map JObj items) \<and> items \<noteq> []
              \<and> rs = map (dict_set ''_store_name'' (JStr (name st))) items))
         \<or> (\<not> found \<and> rs = []))"
proof -
  let ?req = "windowed_request strftime st search_type search_field trm (int (utcnow env))"
  from assms obtain resp where resp: "http_get env ?req = Inr resp"
    unfolding windowed_search_def Let_def by (auto split: sum.splits)
  show ?thesis
  proof (cases "status_code resp = 200")
    case False
    with assms resp show ?thesis
      unfolding windowed_search_def Let_def by auto
  next
    case True
    from assms resp True obtain data where data: "json_body resp = Inr (JObj data)"
      unfolding windowed_search_def Let_def by (auto split: sum.splits json.splits)
    show ?thesis
    proof (cases "truthy (found_items_of search_type data)")
      case False
      with assms resp True data show ?thesis
        unfolding windowed_search_def Let_def by auto
    next
      case tr: True
      from assms resp True data tr
      have t: "tag_found_items (name st) (found_items_of search_type data) = Inr rs" and f: found
        unfolding windowed_search_def Let_def by (auto split: sum.splits)
      from tag_found_items_Inr [OF t] obtain items where
        i: "found_items_of search_type data = JList (map JObj items)"
        and r: "rs = map (dict_set ''_store_name'' (JStr (name st))) items" by blast
      from tr i have "items \<noteq> []" by simp
      with resp True data f i r show ?thesis by auto
    qed
  qed
qed

lemma point_lookup_RequestException:
  "snd (point_lookup st trm env) = Inl (RequestException d) \<longleftrightarrow>
     (case http_get env (point_request st trm) of
        Inl e \<Rightarrow> e = RequestException d
      | Inr resp \<Rightarrow> status_code resp = 200 \<and> json_body resp = Inl (RequestException d))"
  unfolding point_lookup_def Let_def
  by (auto split: sum.splits json.splits)

lemma windowed_search_RequestException:
  "snd (windowed_search strftime st search_type search_field trm env) = Inl (RequestException d) \<longleftrightarrow>
     (case http_get env (windowed_request strftime st search_type search_field trm
                           (int (utcnow env))) of
        Inl e \<Rightarrow> e = RequestException d
      | Inr resp \<Rightarrow> status_code resp = 200 \<and> json_body resp = Inl (RequestException d))"
proof (cases "http_get env (windowed_request strftime st search_type search_field trm
                           (int (utcnow env)))")
  case (Inl e)
  then show ?thesis unfolding windowed_search_def Let_def by auto
next
  case (Inr resp)
  show ?thesis
  proof (cases "status_code resp = 200")
    case False
    with Inr show ?thesis unfolding windowed_search_def Let_def by auto
  next
    case True
    show ?thesis
    proof (cases "json_body resp")
      case (Inl e)
      with Inr True show ?thesis unfolding windowed_search_def Let_def by auto
    next
      case (Inr v)
      have "tag_found_items (name st) w \<noteq> Inl (RequestException d)" for w
      proof (cases w)
        case (JList xs)
        have "tag_items (name st) xs \<noteq> Inl (RequestException d)"
          by (induction "name st" xs rule: tag_items.induct) (auto split: sum.splits)
        with JList show ?thesis by simp
      qed simp_all
      with Inr \<open>http_get env _ = Inr resp\<close> True show ?thesis
        unfolding windowed_search_def Let_def
        by (cases v) (auto split: sum.splits)
    qed
  qed
qed

lemma lookup_RequestException:
  "snd (lookup strftime st search_type search_field trm env) = Inl (RequestException d) \<longleftrightarrow>
     raises_request_exception strftime st search_type search_field trm env d"
  unfolding lookup_def raises_request_exception_def request_of_def
  by (simp add: point_lookup_RequestException windowed_search_RequestException)

lemma process_term_found:
  assumes "lookup strftime st search_type search_field trm env = (evs, Inr (rs, True))"
  shows "snd (process_term strftime st search_type search_field total_terms index trm env) = Inr rs"
  unfolding process_term_def Let_def by (simp add: assms)

lemma process_term_not_found:
  assumes "lookup strftime st search_type search_field trm env = (evs, Inr (rs, False))"
  shows "snd (process_term strftime st search_type search_field total_terms index trm env)
     = Inr (rs @ [synthetic_record trm ''Not Found'' st])"
  unfolding process_term_def Let_def by (simp add: assms)

lemma process_term_raises:
  assumes "raises_request_exception strftime st search_type search_field trm env d"
  shows "snd (process_term strftime st search_type search_field total_terms index trm env)
     = Inr [synthetic_record trm (''Network Error: '' @ d) st]"
proof -
  from assms have "snd (lookup strftime st search_type search_field trm env)
      = Inl (RequestException d)" by (simp add: lookup_RequestException)
  then obtain evs where "lookup strftime st search_type search_field trm env
      = (evs, Inl (RequestException d))"
    by (cases "lookup strftime st search_type search_field trm env") simp
  then show ?thesis unfolding process_term_def Let_def by simp
qed

lemma lookup_Inr_cases:
  assumes "lookup strftime st search_type search_field trm env = (evs, Inr (rs, found))"
  shows "\<exists>resp. http_get env (request_of strftime st search_type search_field trm env) = Inr resp
     \<and> ((found \<and> status_code resp = 200 \<and>
          (\<exists>data. json_body resp = Inr (JObj data) \<and>
             (if is_point_lookup search_type search_field
              then rs = [dict_set ''_store_name'' (JStr (name st)) data]
              else (\<exists>items. found_items_of search_type data = JList (map JObj items)
                     \<and> items \<noteq> []
                     \<and> rs = map (dict_set ''_store_name'' (JStr (name st))) items))))
         \<or> (\<not> found \<and> rs = []))"
proof (cases "is_point_lookup search_type search_field")
  case True
  with assms have "point_lookup st trm env = (evs, Inr (rs, found))"
    by (simp add: lookup_def is_point_lookup_def)
  from point_lookup_cases [OF this] True show ?thesis
    by (auto simp: request_of_def is_point_lookup_def)
next
  case False
  with assms have "windowed_search strftime st search_type search_field trm env
      = (evs, Inr (rs, found))"
    by (auto simp: lookup_def is_point_lookup_def split: if_splits)
  from windowed_search_cases [OF this] False show ?thesis
    by (auto simp: request_of_def is_point_lookup_def)
qed

lemma process_term_Inr_cases:
  assumes "snd (process_term strftime st search_type search_field total_terms index trm env) = Inr rs"
  shows "(\<exists>d. raises_request_exception strftime st search_type search_field trm env d
            \<and> rs = [synthetic_record trm (''Network Error: '' @ d) st])
     \<or> ((\<forall>d. \<not> raises_request_exception strftime st search_type search_field trm env d)
         \<and> (rs = [synthetic_record trm ''Not Found'' st]
            \<or> (\<exists>resp data.
                 http_get env (request_of strftime st search_type search_field trm env) = Inr resp
                 \<and> status_code resp = 200 \<and> json_body resp = Inr (JObj data)
                 \<and> (if is_point_lookup search_type search_field
                     then rs = [dict_set ''_store_name'' (JStr (name st)) data]
                     else (\<exists>items. found_items_of search_type data = JList (map JObj items)
                            \<and> items \<noteq> []
                            \<and> rs = map (dict_set ''_store_name'' (JStr (name st))) items)))))"
proof -
  obtain evs r where l: "lookup strftime st search_type search_field trm env = (evs, r)"
    by (cases "lookup strftime st search_type search_field trm env")
  show ?thesis
  proof (cases r)
    case (Inl e)
    show ?thesis
    proof (cases e)
      case (RequestException d)
      with l Inl have "snd (lookup strftime st search_type search_field trm env)
          = Inl (RequestException d)" by simp
      then have r: "raises_request_exception strftime st search_type search_field trm env d"
        by (simp add: lookup_RequestException)
      from process_term_raises [OF r, of total_terms index] assms
      have "rs = [synthetic_record trm (''Network Error: '' @ d) st]" by simp
      with r show ?thesis by blast
    qed (use assms l Inl in \<open>simp_all add: process_term_def\<close>)
  next
    case (Inr p)
    obtain rs0 found where p: "p = (rs0, found)" by (cases p)
    from l Inr p have l': "lookup strftime st search_type search_field trm env
        = (evs, Inr (rs0, found))" by simp
    have nr: "\<forall>d. \<not> raises_request_exception strftime st search_type search_field trm env d"
      using l' by (simp add: lookup_RequestException [symmetric])
    from lookup_Inr_cases [OF l'] obtain resp where
      resp: "http_get env (request_of strftime st search_type search_field trm env) = Inr resp"
      and c: "(found \<and> status_code resp = 200 \<and>
          (\<exists>data. json_body resp = Inr (JObj data) \<and>
             (if is_point_lookup search_type search_field
              then rs0 = [dict_set ''_store_name'' (JStr (name st)) data]
              else (\<exists>items. found_items_of search_type data = JList (map JObj items)
                     \<and> items \<noteq> []
                     \<and> rs0 = map (dict_set ''_store_name'' (JStr (name st))) items))))
         \<or> (\<not> found \<and> rs0 = [])" by blast
    show ?thesis
    proof (cases found)
      case True
      with l' have "snd (process_term strftime st search_type search_field total_terms index trm env)
          = Inr rs0" by (simp add: process_term_found)
      with assms have "rs = rs0" by simp
      with c True resp nr show ?thesis by auto
    next
      case False
      with c have "rs0 = []" by simp
      with l' False
      have "snd (process_term strftime st search_type search_field total_terms index trm env)
          = Inr [synthetic_record trm ''Not Found'' st]"
        using process_term_not_found [of strftime st search_type search_field trm env evs rs0]
        by simp
      with assms have "rs = [synthetic_record trm ''Not Found'' st]" by simp
      with nr show ?thesis by blast
    qed
  qed
qed

section \<open>Properties of the stop flag and the loop\<close>

lemma processed_count_le: "processed_count env index terms \<le> length terms"
  by (induction terms arbitrary: index) simp_all

lemma processed_count_running:
  "j < processed_count env index terms \<Longrightarrow> \<not> stop_is_set (env (index + j))"
proof (induction terms arbitrary: index j)
  case Nil
  then show ?case by simp
next
  case (Cons trm terms)
  show ?case
  proof (cases j)
    case 0
    with Cons.prems show ?thesis by (auto split: if_splits)
  next
    case (Suc j')
    with Cons.prems have "j' < processed_count env (Suc index) terms"
      by (auto split: if_splits)
    from Cons.IH [OF this] Suc show ?thesis by simp
  qed
qed

lemma processed_count_stop:
  "processed_count env index terms < length terms \<Longrightarrow>
     stop_is_set (env (index + processed_count env index terms))"
proof (induction terms arbitrary: index)
  case Nil
  then show ?case by simp
next
  case (Cons trm terms)
  show ?case
  proof (cases "stop_is_set (env index)")
    case True
    then show ?thesis by simp
  next
    case False
    with Cons.prems have "processed_count env (Suc index) terms < length terms" by simp
    from Cons.IH [OF this] False show ?thesis by simp
  qed
qed

lemma processed_count_eq:
  assumes "k \<le> length terms"
    and "\<forall>j<k. \<not> stop_is_set (env (index + j))"
    and "k < length terms \<longrightarrow> stop_is_set (env (index + k))"
  shows "processed_count env index terms = k"
proof (rule ccontr)
  assume ne: "processed_count env index terms \<noteq> k"
  let ?c = "processed_count env index terms"
  show False
  proof (cases "?c < k")
    case True
    then have "?c < length terms" using assms(1) by simp
    from processed_count_stop [OF this] assms(2) True show False by blast
  next
    case False
    with ne have lt: "k < ?c" by simp
    then have "k < length terms" using processed_count_le [of env index terms] by simp
    with assms(3) have "stop_is_set (env (index + k))" by simp
    with processed_count_running [OF lt] show False by simp
  qed
qed

lemma search_loop_logs:
  "list_all is_log
     (fst (search_loop strftime st search_type search_field total_terms index terms env results))"
proof (induction terms arbitrary: index results)
  case Nil
  then show ?case by simp
next
  case (Cons trm terms)
  obtain evs r where pt: "process_term strftime st search_type search_field total_terms index trm
      (env index) = (evs, r)"
    by (cases "process_term strftime st search_type search_field total_terms index trm (env index)")
  have l: "list_all is_log evs"
    using process_term_logs [of strftime st search_type search_field total_terms index trm "env index"]
    by (simp add: pt)
  show ?case
  proof (cases r)
    case (Inl e)
    with pt l show ?thesis by simp
  next
    case (Inr rs)
    obtain evs' r' where sl: "search_loop strftime st search_type search_field total_terms
        (Suc index) terms env (results @ rs) = (evs', r')"
      by (cases "search_loop strftime st search_type search_field total_terms
        (Suc index) terms env (results @ rs)")
    have "list_all is_log evs'"
      using Cons.IH [of "Suc index" "results @ rs"] by (simp add: sl)
    with pt l Inr sl show ?thesis by simp
  qed
qed

lemma search_loop_Inr_completes:
  "snd (search_loop strftime st search_type search_field total_terms index terms env results)
     = Inr batch \<Longrightarrow> j < processed_count env index terms \<Longrightarrow>
   term_completes strftime st search_type search_field total_terms (index + j) (terms ! j)
     (env (index + j))"
proof (induction terms arbitrary: index results j)
  case Nil
  then show ?case by simp
next
  case (Cons trm terms)
  from Cons.prems(2) have ns: "\<not> stop_is_set (env index)" by (auto split: if_splits)
  obtain evs r where pt: "process_term strftime st search_type search_field total_terms index trm
      (env index) = (evs, r)"
    by (cases "process_term strftime st search_type search_field total_terms index trm (env index)")
  from Cons.prems(1) ns pt obtain rs where r: "r = Inr rs"
    by (cases r) auto
  have tc: "term_completes strftime st search_type search_field total_terms index trm (env index)"
    unfolding term_completes_def by (simp add: pt r)
  show ?case
  proof (cases j)
    case 0
    with tc show ?thesis by simp
  next
    case (Suc j')
    with Cons.prems(2) ns have j': "j' < processed_count env (Suc index) terms" by simp
    from Cons.prems(1) ns pt r
    have "snd (search_loop strftime st search_type search_field total_terms (Suc index) terms env
        (results @ rs)) = Inr batch"
      by (auto split: prod.splits)
    from Cons.IH [OF this j'] Suc show ?thesis by simp
  qed
qed

section \<open>Outcomes of one pass, by response\<close>

lemma lookup_point_payload:
  assumes "is_point_lookup search_type search_field"
    and "http_get env (point_request st trm) = Inr resp"
    and "status_code resp = 200"
    and "json_body resp = Inr (JObj data)"
  shows "snd (lookup strftime st search_type search_field trm env)
     = Inr ([dict_set ''_store_name'' (JStr (name st)) data], True)"
  using assms unfolding lookup_def is_point_lookup_def point_lookup_def Let_def by simp


lemma lookup_windowed_payload:
  assumes "\<not> is_point_lookup search_type search_field"
    and "http_get env (windowed_request strftime st search_type search_field trm (int (utcnow env)))
           = Inr resp"
    and "status_code resp = 200"
    and "json_body resp = Inr (JObj data)"
    and "found_items_of search_type data = JList (map JObj items)"
    and "items \<noteq> []"
  shows "snd (lookup strftime st search_type search_field trm env)
     = Inr (map (dict_set ''_store_name'' (JStr (name st))) items, True)"
proof -
  from assms(1) have l: "lookup strftime st search_type search_field trm env
      = windowed_search strftime st search_type search_field trm env"
    unfolding lookup_def is_point_lookup_def by auto
  show ?thesis
    unfolding l windowed_search_def Let_def
    using assms(2-6) by (simp add: tag_items_map)
qed



lemma process_term_of_lookup:
  assumes "snd (lookup strftime st search_type search_field trm env) = Inr (rs, found)"
  shows "snd (process_term strftime st search_type search_field total_terms index trm env)
     = Inr (if found then rs else rs @ [synthetic_record trm ''Not Found'' st])"
proof -
  from assms obtain evs where
    "lookup strftime st search_type search_field trm env = (evs, Inr (rs, found))"
    by (cases "lookup strftime st search_type search_field trm env") simp
  then show ?thesis unfolding process_term_def Let_def by simp
qed

lemma term_records_of_lookup:
  assumes "snd (lookup strftime st search_type search_field trm env) = Inr (rs, found)"
  shows "term_records strftime st search_type search_field total_terms index trm env
     = (if found then rs else rs @ [synthetic_record trm ''Not Found'' st])"
  unfolding term_records_def by (simp add: process_term_of_lookup [OF assms])

section \<open>The whole run\<close>

lemma run_api_search_finished:
  assumes "\<forall>j<processed_count env 0 terms.
      term_completes strftime st search_type search_field (length terms) j (terms ! j) (env j)"
  shows "run_api_search strftime st search_type search_field terms env
     = (concat (map (\<lambda>j. term_events strftime st search_type search_field (length terms) j
                       (terms ! j) (env j)) [0..<processed_count env 0 terms])
          @ (if processed_count env 0 terms < length terms then [stop_notice] else [])
          @ [Done_event (concat (map (\<lambda>j. term_records strftime st search_type search_field
                            (length terms) j (terms ! j) (env j))
                          [0..<processed_count env 0 terms]))],
        None)"
proof -
  let ?k = "processed_count env 0 terms"
  have a1: "?k \<le> length terms" by (rule processed_count_le)
  have a2: "\<forall>j<?k. \<not> stop_is_set (env (0 + j))"
    using processed_count_running [of _ env 0 terms] by simp
  have a3: "\<forall>j<?k. term_completes strftime st search_type search_field (length terms) (0 + j)
      (terms ! j) (env (0 + j))" using assms by simp
  have a4: "?k < length terms \<longrightarrow> stop_is_set (env (0 + ?k))"
    using processed_count_stop [of env 0 terms] by simp
  from search_loop_prefix [OF a1 a2 a3 a4, of "[]"]
  show ?thesis unfolding run_api_search_def by simp
qed

lemma run_api_search_None_iff:
  "snd (run_api_search strftime st search_type search_field terms env) = None \<longleftrightarrow>
     (\<forall>j<processed_count env 0 terms.
        term_completes strftime st search_type search_field (length terms) j (terms ! j) (env j))"
proof
  assume n: "snd (run_api_search strftime st search_type search_field terms env) = None"
  obtain evs r where sl: "search_loop strftime st search_type search_field (length terms) 0 terms
      env [] = (evs, r)"
    by (cases "search_loop strftime st search_type search_field (length terms) 0 terms env []")
  from n sl obtain batch where "r = Inr batch"
    unfolding run_api_search_def by (cases r) auto
  with sl have s: "snd (search_loop strftime st search_type search_field (length terms) 0 terms
      env []) = Inr batch" by simp
  show "\<forall>j<processed_count env 0 terms.
        term_completes strftime st search_type search_field (length terms) j (terms ! j) (env j)"
    using search_loop_Inr_completes [OF s] by simp
next
  assume "\<forall>j<processed_count env 0 terms.
        term_completes strftime st search_type search_field (length terms) j (terms ! j) (env j)"
  from run_api_search_finished [OF this]
  show "snd (run_api_search strftime st search_type search_field terms env) = None" by simp
qed

lemma run_api_search_aborted:
  assumes "snd (run_api_search strftime st search_type search_field terms env) \<noteq> None"
  shows "list_all is_log (fst (run_api_search strftime st search_type search_field terms env))"
proof -
  obtain evs r where sl: "search_loop strftime st search_type search_field (length terms) 0 terms
      env [] = (evs, r)"
    by (cases "search_loop strftime st search_type search_field (length terms) 0 terms env []")
  from assms sl obtain e where r: "r = Inl e"
    unfolding run_api_search_def by (cases r) auto
  have "list_all is_log evs"
    using search_loop_logs [of strftime st search_type search_field "length terms" 0 terms env "[]"]
    by (simp add: sl)
  with sl r show ?thesis unfolding run_api_search_def by simp
qed

lemma term_events_concat_logs:
  "list_all is_log (concat (map (\<lambda>j. term_events strftime st search_type search_field total_terms
       j (terms ! j) (env j)) js))"
  by (induction js) (simp_all add: term_events_logs)

section \<open>The orchestrator: records of every term\<close>

text \<open>
  C1 (as amended). Take a run in which the stop flag is found set at no term boundary and
  which no exception ends, so that the \<^verbatim>\<open>done\<close> message is put. Then the queue holds log
  messages followed by the \<^verbatim>\<open>done\<close> message, whose batch is the concatenation, in the
  order of the terms, of the records of each term; and the records of each term are not
  empty: they are exactly one placeholder with the term, the reason (\<^verbatim>\<open>'Not Found'\<close> or
  \<^verbatim>\<open>'Network Error: ...'\<close>) and the store name, or else the records made from the payload
  of the response with status 200 (the payload object for the direct lookup, the items of
  the payload's list in order for the general search), each with the store name set.
\<close>

theorem no_term_dropped:
  assumes "\<forall>i<length terms. \<not> stop_is_set (env i)"
    and "snd (run_api_search strftime st search_type search_field terms env) = None"
  shows "(\<exists>logs. list_all is_log logs
            \<and> fst (run_api_search strftime st search_type search_field terms env)
                = logs @ [Done_event (concat (map (\<lambda>i. term_records strftime st search_type
                            search_field (length terms) i (terms ! i) (env i))
                          [0..<length terms]))])
     \<and> (\<forall>i<length terms.
          term_records strftime st search_type search_field (length terms) i (terms ! i) (env i)
            \<noteq> []
          \<and> (term_records strftime st search_type search_field (length terms) i (terms ! i) (env i)
                = [[(''shipment_id_searched'', JStr (terms ! i)),
                    (''status_error'', JStr ''Not Found''),
                    (''_store_name'', JStr (name st))]]
             \<or> (\<exists>d. term_records strftime st search_type search_field (length terms) i
                        (terms ! i) (env i)
                      = [[(''shipment_id_searched'', JStr (terms ! i)),
                          (''status_error'', JStr (''Network Error: '' @ d)),
                          (''_store_name'', JStr (name st))]])
             \<or> (\<exists>resp data.
                   http_get (env i) (request_of strftime st search_type search_field (terms ! i)
                      (env i)) = Inr resp
                   \<and> status_code resp = 200 \<and> json_body resp = Inr (JObj data)
                   \<and> (if is_point_lookup search_type search_field
                       then term_records strftime st search_type search_field (length terms) i
                              (terms ! i) (env i)
                            = [dict_set ''_store_name'' (JStr (name st)) data]
                       else (\<exists>items. found_items_of search_type data = JList (map JObj items)
                              \<and> items \<noteq> []
                              \<and> term_records strftime st search_type search_field (length terms)
                                    i (terms ! i) (env i)
                                  = map (dict_set ''_store_name'' (JStr (name st))) items)))))"
proof (intro conjI allI impI)
  have pc: "processed_count env 0 terms = length terms"
    by (rule processed_count_eq) (use assms(1) in simp_all)
  from assms(2) have tc: "\<forall>j<processed_count env 0 terms.
      term_completes strftime st search_type search_field (length terms) j (terms ! j) (env j)"
    by (simp only: run_api_search_None_iff)
  from run_api_search_finished [OF tc]
  have "fst (run_api_search strftime st search_type search_field terms env)
      = concat (map (\<lambda>j. term_events strftime st search_type search_field (length terms) j
                       (terms ! j) (env j)) [0..<length terms])
        @ [Done_event (concat (map (\<lambda>i. term_records strftime st search_type
                            search_field (length terms) i (terms ! i) (env i))
                          [0..<length terms]))]"
    by (simp add: pc)
  moreover have "list_all is_log (concat (map (\<lambda>j. term_events strftime st search_type
      search_field (length terms) j (terms ! j) (env j)) [0..<length terms]))"
    by (rule term_events_concat_logs)
  ultimately show "\<exists>logs. list_all is_log logs
            \<and> fst (run_api_search strftime st search_type search_field terms env)
                = logs @ [Done_event (concat (map (\<lambda>i. term_records strftime st search_type
                            search_field (length terms) i (terms ! i) (env i))
                          [0..<length terms]))]"
    by blast
  fix i assume i: "i < length terms"
  let ?rs = "term_records strftime st search_type search_field (length terms) i (terms ! i) (env i)"
  from tc i pc
  have "term_completes strftime st search_type search_field (length terms) i (terms ! i) (env i)"
    by simp
  then have s: "snd (process_term strftime st search_type search_field (length terms) i (terms ! i)
      (env i)) = Inr ?rs"
    unfolding term_completes_def term_records_def by (auto split: sum.splits)
  note c = process_term_Inr_cases [OF s]
  from c show "?rs \<noteq> []"
    by (auto split: if_splits)
  from c show "?rs = [[(''shipment_id_searched'', JStr (terms ! i)),
                    (''status_error'', JStr ''Not Found''),
                    (''_store_name'', JStr (name st))]]
             \<or> (\<exists>d. ?rs
                      = [[(''shipment_id_searched'', JStr (terms ! i)),
                          (''status_error'', JStr (''Network Error: '' @ d)),
                          (''_store_name'', JStr (name st))]])
             \<or> (\<exists>resp data.
                   http_get (env i) (request_of strftime st search_type search_field (terms ! i)
                      (env i)) = Inr resp
                   \<and> status_code resp = 200 \<and> json_body resp = Inr (JObj data)
                   \<and> (if is_point_lookup search_type search_field
                       then ?rs
                            = [dict_set ''_store_name'' (JStr (name st)) data]
                       else (\<exists>items. found_items_of search_type data = JList (map JObj items)
                              \<and> items \<noteq> []
                              \<and> ?rs
                                  = map (dict_set ''_store_name'' (JStr (name st))) items)))"
    unfolding synthetic_record_def by blast
qed

theorem no_term_dropped_witness:
  "\<not> stop_is_set (sample_env sample_point_get 0)
   \<and> \<not> stop_is_set (sample_env sample_point_get (Suc 0))
   \<and> length [''A1'', ''A2''] = Suc (Suc 0)
   \<and> snd (run_api_search sample_strftime sample_store ''outbound'' ''Client ID'' [''A1'', ''A2'']
        (sample_env sample_point_get)) = None
   \<and> (\<exists>logs. list_all is_log logs
        \<and> fst (run_api_search sample_strftime sample_store ''outbound'' ''Client ID''
                 [''A1'', ''A2''] (sample_env sample_point_get))
            = logs @ [Done_event
                [[(''id'', JInt 1), (''_store_name'', JStr ''Diesel'')],
                 [(''shipment_id_searched'', JStr ''A2''), (''status_error'', JStr ''Not Found''),
                  (''_store_name'', JStr ''Diesel'')]]])"
proof -
  have h1: "\<forall>i<length [''A1'', ''A2'']. \<not> stop_is_set (sample_env sample_point_get i)"
    by (simp add: sample_env_def)
  have h2: "snd (run_api_search sample_strftime sample_store ''outbound'' ''Client ID''
        [''A1'', ''A2''] (sample_env sample_point_get)) = None"
    by (simp add: run_api_search_def process_term_def lookup_def point_lookup_def point_request_def
      sample_env_def sample_point_get_def found_response_def status_response_def)
  have r0: "term_records sample_strftime sample_store ''outbound'' ''Client ID'' (Suc (Suc 0)) 0 ''A1''
      (sample_env sample_point_get 0) = [[(''id'', JInt 1), (''_store_name'', JStr ''Diesel'')]]"
    by (simp add: term_records_def process_term_def lookup_def point_lookup_def point_request_def
      sample_env_def sample_point_get_def found_response_def sample_store_def)
  have r1: "term_records sample_strftime sample_store ''outbound'' ''Client ID'' (Suc (Suc 0)) (Suc 0) ''A2''
      (sample_env sample_point_get (Suc 0))
      = [[(''shipment_id_searched'', JStr ''A2''), (''status_error'', JStr ''Not Found''),
          (''_store_name'', JStr ''Diesel'')]]"
    by (simp add: term_records_def process_term_def lookup_def point_lookup_def point_request_def
      sample_env_def sample_point_get_def status_response_def sample_store_def synthetic_record_def)
  have u: "[0..<length [''A1'', ''A2'']] = [0, Suc 0]" by (simp add: upt_rec)
  from no_term_dropped [OF h1 h2]
  have "\<exists>logs. list_all is_log logs
        \<and> fst (run_api_search sample_strftime sample_store ''outbound'' ''Client ID''
                 [''A1'', ''A2''] (sample_env sample_point_get))
            = logs @ [Done_event (concat (map (\<lambda>i. term_records sample_strftime sample_store
                 ''outbound'' ''Client ID'' (length [''A1'', ''A2'']) i ([''A1'', ''A2''] ! i)
                 (sample_env sample_point_get i)) [0..<length [''A1'', ''A2'']]))]"
    by (rule conjunct1)
  then have "\<exists>logs. list_all is_log logs
        \<and> fst (run_api_search sample_strftime sample_store ''outbound'' ''Client ID''
                 [''A1'', ''A2''] (sample_env sample_point_get))
            = logs @ [Done_event
                [[(''id'', JInt 1), (''_store_name'', JStr ''Diesel'')],
                 [(''shipment_id_searched'', JStr ''A2''), (''status_error'', JStr ''Not Found''),
                  (''_store_name'', JStr ''Diesel'')]]]"
    by (simp add: u r0 r1)
  with h2 show ?thesis by (simp add: sample_env_def)
qed

theorem no_term_dropped_counterexample:
  "\<not> stop_is_set (sample_env sample_null_get 0)
   \<and> run_api_search sample_strftime sample_store ''outbound'' ''Client ID'' [''A1'']
       (sample_env sample_null_get)
     = ([Log_event ''Searching (1/1): A1...'' None,
         Log_event ''GET https://storeapi.parcelninja.com/api/v1/outbounds/0 [X-Client-Id: A1]''
           (Some ''DEBUG'')],
        Some TypeError)
   \<and> \<not> (\<exists>logs batch.
          fst (run_api_search sample_strftime sample_store ''outbound'' ''Client ID'' [''A1'']
                 (sample_env sample_null_get)) = logs @ [Done_event batch])"
proof -
  have r: "run_api_search sample_strftime sample_store ''outbound'' ''Client ID'' [''A1'']
       (sample_env sample_null_get)
     = ([Log_event ''Searching (1/1): A1...'' None,
         Log_event ''GET https://storeapi.parcelninja.com/api/v1/outbounds/0 [X-Client-Id: A1]''
           (Some ''DEBUG'')],
        Some TypeError)"
    by (simp add: run_api_search_def process_term_def lookup_def
      point_lookup_def sample_env_def sample_null_get_def
      found_response_def str_nat.simps digit_char_def API_BASE_URL_def)
  have "\<not> (\<exists>logs batch. [Log_event ''Searching (1/1): A1...'' None,
         Log_event ''GET https://storeapi.parcelninja.com/api/v1/outbounds/0 [X-Client-Id: A1]''
           (Some ''DEBUG'')]
         = logs @ [Done_event batch])"
    by (simp add: Cons_eq_append_conv)
  with r show ?thesis by (simp add: sample_env_def)
qed

section \<open>The orchestrator: order of events\<close>

text \<open>
  C3 (as amended). The worker puts the \<^verbatim>\<open>done\<close> message exactly when every pass of the
  loop that it starts ends without an exception other than \<^verbatim>\<open>requests.RequestException\<close>;
  the passes it starts are those for the terms before the first boundary at which it finds
  the stop flag set. In that case the queue holds log messages followed by the one
  \<^verbatim>\<open>done\<close> message, whose batch is the concatenation of the records of these terms in the
  order of the terms; otherwise the queue holds log messages only. The records of a term
  with a payload are in the order of the response: for the general search the items of the
  payload's list, in order, each with the store name set; for the direct lookup the payload
  object with the store name set.
\<close>

theorem event_order:
  "(snd (run_api_search strftime st search_type search_field terms env) = None \<longleftrightarrow>
      (\<forall>j<processed_count env 0 terms.
         term_completes strftime st search_type search_field (length terms) j (terms ! j) (env j)))
   \<and> (snd (run_api_search strftime st search_type search_field terms env) = None \<longrightarrow>
        (\<exists>logs. list_all is_log logs
           \<and> fst (run_api_search strftime st search_type search_field terms env)
               = logs @ [Done_event (concat (map (\<lambda>j. term_records strftime st search_type
                           search_field (length terms) j (terms ! j) (env j))
                         [0..<processed_count env 0 terms]))]))
   \<and> (snd (run_api_search strftime st search_type search_field terms env) \<noteq> None \<longrightarrow>
        list_all is_log (fst (run_api_search strftime st search_type search_field terms env)))
   \<and> (\<not> is_point_lookup search_type search_field
        \<and> http_get e (windowed_request strftime st search_type search_field trm (int (utcnow e)))
            = Inr resp
        \<and> status_code resp = 200 \<and> json_body resp = Inr (JObj data)
        \<and> found_items_of search_type data = JList (map JObj items) \<and> items \<noteq> [] \<longrightarrow>
        term_records strftime st search_type search_field total_terms index trm e
          = map (dict_set ''_store_name'' (JStr (name st))) items)
   \<and> (is_point_lookup search_type search_field
        \<and> http_get e (point_request st trm) = Inr resp
        \<and> status_code resp = 200 \<and> json_body resp = Inr (JObj data) \<longrightarrow>
        term_records strftime st search_type search_field total_terms index trm e
          = [dict_set ''_store_name'' (JStr (name st)) data])"
proof (intro conjI impI)
  show "snd (run_api_search strftime st search_type search_field terms env) = None \<longleftrightarrow>
      (\<forall>j<processed_count env 0 terms.
         term_completes strftime st search_type search_field (length terms) j (terms ! j) (env j))"
    by (rule run_api_search_None_iff)
next
  assume "snd (run_api_search strftime st search_type search_field terms env) = None"
  then have tc: "\<forall>j<processed_count env 0 terms.
      term_completes strftime st search_type search_field (length terms) j (terms ! j) (env j)"
    by (simp only: run_api_search_None_iff)
  let ?logs = "concat (map (\<lambda>j. term_events strftime st search_type search_field (length terms) j
                       (terms ! j) (env j)) [0..<processed_count env 0 terms])
          @ (if processed_count env 0 terms < length terms then [stop_notice] else [])"
  have "list_all is_log ?logs"
    by (simp add: term_events_concat_logs stop_notice_def)
  moreover have "fst (run_api_search strftime st search_type search_field terms env)
      = ?logs @ [Done_event (concat (map (\<lambda>j. term_records strftime st search_type
                           search_field (length terms) j (terms ! j) (env j))
                         [0..<processed_count env 0 terms]))]"
    by (simp add: run_api_search_finished [OF tc])
  ultimately show "\<exists>logs. list_all is_log logs
           \<and> fst (run_api_search strftime st search_type search_field terms env)
               = logs @ [Done_event (concat (map (\<lambda>j. term_records strftime st search_type
                           search_field (length terms) j (terms ! j) (env j))
                         [0..<processed_count env 0 terms]))]"
    by blast
next
  assume "snd (run_api_search strftime st search_type search_field terms env) \<noteq> None"
  then show "list_all is_log (fst (run_api_search strftime st search_type search_field terms env))"
    by (rule run_api_search_aborted)
next
  assume a: "\<not> is_point_lookup search_type search_field
        \<and> http_get e (windowed_request strftime st search_type search_field trm (int (utcnow e)))
            = Inr resp
        \<and> status_code resp = 200 \<and> json_body resp = Inr (JObj data)
        \<and> found_items_of search_type data = JList (map JObj items) \<and> items \<noteq> []"
  then have "snd (lookup strftime st search_type search_field trm e)
     = Inr (map (dict_set ''_store_name'' (JStr (name st))) items, True)"
    using lookup_windowed_payload [where resp = resp and data = data and items = items
        and env = e and strftime = strftime and st = st and trm = trm
        and search_type = search_type and search_field = search_field] by blast
  from term_records_of_lookup [OF this]
  show "term_records strftime st search_type search_field total_terms index trm e
          = map (dict_set ''_store_name'' (JStr (name st))) items" by simp
next
  assume a: "is_point_lookup search_type search_field
        \<and> http_get e (point_request st trm) = Inr resp
        \<and> status_code resp = 200 \<and> json_body resp = Inr (JObj data)"
  then have "snd (lookup strftime st search_type search_field trm e)
     = Inr ([dict_set ''_store_name'' (JStr (name st)) data], True)"
    using lookup_point_payload [where resp = resp and data = data
        and env = e and strftime = strftime and st = st and trm = trm
        and search_type = search_type and search_field = search_field] by blast
  from term_records_of_lookup [OF this]
  show "term_records strftime st search_type search_field total_terms index trm e
          = [dict_set ''_store_name'' (JStr (name st)) data]" by simp
qed

theorem event_order_witness:
  "snd (run_api_search sample_strftime sample_store ''inbound'' ''Client ID'' [''X'']
          (sample_env sample_windowed_get)) = None
   \<and> (\<exists>logs. list_all is_log logs
        \<and> fst (run_api_search sample_strftime sample_store ''inbound'' ''Client ID'' [''X'']
                 (sample_env sample_windowed_get))
            = logs @ [Done_event [[(''id'', JInt 1), (''_store_name'', JStr ''Diesel'')],
                                  [(''id'', JInt 2), (''_store_name'', JStr ''Diesel'')]]])
   \<and> snd (run_api_search sample_strftime sample_store ''inbound'' ''Client ID'' [''X'']
          (sample_env sample_list_get)) \<noteq> None
   \<and> list_all is_log (fst (run_api_search sample_strftime sample_store ''inbound'' ''Client ID''
          [''X''] (sample_env sample_list_get)))
   \<and> is_point_lookup ''outbound'' ''Client ID''
   \<and> term_records sample_strftime sample_store ''outbound'' ''Client ID'' (Suc 0) 0 ''A1''
        (sample_env sample_point_get 0)
       = [[(''id'', JInt 1), (''_store_name'', JStr ''Diesel'')]]"
proof -
  let ?resp = "found_response (JObj [(''inbounds'',
            JList [JObj [(''id'', JInt 1)], JObj [(''id'', JInt 2)]])])"
  let ?data = "[(''inbounds'', JList [JObj [(''id'', JInt 1)], JObj [(''id'', JInt 2)]])]"
  let ?items = "[[(''id'', JInt 1)], [(''id'', JInt 2)]]"
  have w: "\<not> is_point_lookup ''inbound'' ''Client ID''
        \<and> http_get (sample_env sample_windowed_get 0)
             (windowed_request sample_strftime sample_store ''inbound'' ''Client ID'' ''X''
                (int (utcnow (sample_env sample_windowed_get 0)))) = Inr ?resp
        \<and> status_code ?resp = 200 \<and> json_body ?resp = Inr (JObj ?data)
        \<and> found_items_of ''inbound'' ?data = JList (map JObj ?items) \<and> ?items \<noteq> []"
    by (simp add: is_point_lookup_def sample_env_def sample_windowed_get_def found_response_def
        found_items_of_def)
  note inst = event_order [where strftime = sample_strftime and st = sample_store
      and search_type = "''inbound''" and search_field = "''Client ID''" and terms = "[''X'']"
      and env = "sample_env sample_windowed_get" and e = "sample_env sample_windowed_get 0"
      and trm = "''X''" and resp = ?resp and data = ?data and items = ?items
      and total_terms = "Suc 0" and index = 0]
  from inst w
  have r0: "term_records sample_strftime sample_store ''inbound'' ''Client ID'' (Suc 0) 0 ''X''
      (sample_env sample_windowed_get 0)
      = [[(''id'', JInt 1), (''_store_name'', JStr ''Diesel'')],
         [(''id'', JInt 2), (''_store_name'', JStr ''Diesel'')]]"
    by (simp add: sample_store_def)
  have pc: "processed_count (sample_env sample_windowed_get) 0 [''X''] = Suc 0"
    by (simp add: sample_env_def)
  have tc: "\<forall>j<processed_count (sample_env sample_windowed_get) 0 [''X''].
      term_completes sample_strftime sample_store ''inbound'' ''Client ID'' (length [''X'']) j
        ([''X''] ! j) (sample_env sample_windowed_get j)"
    by (simp add: pc term_completes_def process_term_def lookup_def windowed_search_def
        sample_env_def sample_windowed_get_def found_response_def found_items_of_def)
  from inst tc
  have n: "snd (run_api_search sample_strftime sample_store ''inbound'' ''Client ID'' [''X'']
          (sample_env sample_windowed_get)) = None" by blast
  with inst
  have "\<exists>logs. list_all is_log logs
        \<and> fst (run_api_search sample_strftime sample_store ''inbound'' ''Client ID'' [''X'']
                 (sample_env sample_windowed_get))
            = logs @ [Done_event (concat (map (\<lambda>j. term_records sample_strftime sample_store
                ''inbound'' ''Client ID'' (length [''X'']) j ([''X''] ! j)
                (sample_env sample_windowed_get j))
                [0..<processed_count (sample_env sample_windowed_get) 0 [''X'']]))]"
    by blast
  then have d: "\<exists>logs. list_all is_log logs
        \<and> fst (run_api_search sample_strftime sample_store ''inbound'' ''Client ID'' [''X'']
                 (sample_env sample_windowed_get))
            = logs @ [Done_event [[(''id'', JInt 1), (''_store_name'', JStr ''Diesel'')],
                                  [(''id'', JInt 2), (''_store_name'', JStr ''Diesel'')]]]"
    unfolding pc by (simp add: r0)
  have c: "snd (run_api_search sample_strftime sample_store ''inbound'' ''Client ID'' [''X'']
          (sample_env sample_list_get)) \<noteq> None"
    by (simp add: run_api_search_def process_term_def lookup_def
      windowed_search_def sample_env_def sample_list_get_def found_response_def)
  with event_order [where strftime = sample_strftime and st = sample_store
      and search_type = "''inbound''" and search_field = "''Client ID''" and terms = "[''X'']"
      and env = "sample_env sample_list_get"]
  have l: "list_all is_log (fst (run_api_search sample_strftime sample_store ''inbound''
          ''Client ID'' [''X''] (sample_env sample_list_get)))" by blast
  have p: "is_point_lookup ''outbound'' ''Client ID''
        \<and> http_get (sample_env sample_point_get 0) (point_request sample_store ''A1'')
            = Inr (found_response (JObj [(''id'', JInt 1)]))
        \<and> status_code (found_response (JObj [(''id'', JInt 1)])) = 200
        \<and> json_body (found_response (JObj [(''id'', JInt 1)])) = Inr (JObj [(''id'', JInt 1)])"
    by (simp add: is_point_lookup_def sample_env_def sample_point_get_def found_response_def
        point_request_def)
  with event_order [where st = sample_store
      and search_type = "''outbound''" and search_field = "''Client ID''"
      and e = "sample_env sample_point_get 0"
      and trm = "''A1''" and resp = "found_response (JObj [(''id'', JInt 1)])"
      and data = "[(''id'', JInt 1)]" and strftime = sample_strftime
      and total_terms = "Suc 0" and index = 0]
  have r1: "term_records sample_strftime sample_store ''outbound'' ''Client ID'' (Suc 0) 0 ''A1''
        (sample_env sample_point_get 0)
       = [[(''id'', JInt 1), (''_store_name'', JStr ''Diesel'')]]"
    by (simp add: sample_store_def)
  from n d c l p r1 show ?thesis by (intro conjI) simp_all
qed

theorem event_order_counterexample:
  "run_api_search sample_strftime sample_store ''inbound'' ''Client ID'' [''X'']
       (sample_env sample_list_get)
     = ([Log_event ''Searching (1/1): X...'' None,
         Log_event ''GET https://storeapi.parcelninja.com/api/v1/inbounds ?search=X'' (Some ''DEBUG'')],
        Some AttributeError)
   \<and> \<not> (\<exists>logs batch.
          fst (run_api_search sample_strftime sample_store ''inbound'' ''Client ID'' [''X'']
                 (sample_env sample_list_get)) = logs @ [Done_event batch])"
proof -
  have r: "run_api_search sample_strftime sample_store ''inbound'' ''Client ID'' [''X'']
       (sample_env sample_list_get)
     = ([Log_event ''Searching (1/1): X...'' None,
         Log_event ''GET https://storeapi.parcelninja.com/api/v1/inbounds ?search=X'' (Some ''DEBUG'')],
        Some AttributeError)"
    by (simp add: run_api_search_def process_term_def lookup_def
      windowed_search_def sample_env_def sample_list_get_def
      found_response_def str_nat.simps digit_char_def API_BASE_URL_def)
  have "\<not> (\<exists>logs batch. [Log_event ''Searching (1/1): X...'' None,
         Log_event ''GET https://storeapi.parcelninja.com/api/v1/inbounds ?search=X'' (Some ''DEBUG'')]
         = logs @ [Done_event batch])"
    by (simp add: Cons_eq_append_conv)
  with r show ?thesis by simp
qed

section \<open>The orchestrator: the stop flag\<close>

text \<open>
  C4 (as amended). Let the stop flag be found set for the first time at the boundary before
  the term at index \<open>k\<close> of the list, and let each of the \<open>k\<close> passes before it end without
  an exception leaving the loop. Then the run puts on the queue the log messages of these
  \<open>k\<close> passes, the stop notice at level \<^verbatim>\<open>WARN\<close>, and the \<^verbatim>\<open>done\<close> message whose batch is
  exactly the records of these \<open>k\<close> terms, and nothing else. For \<open>k = 0\<close> that is the stop
  notice followed by a \<^verbatim>\<open>done\<close> message with no records.
\<close>

theorem stop_at_boundary:
  assumes "k < length terms"
    and "stop_is_set (env k)"
    and "\<forall>j<k. \<not> stop_is_set (env j)"
    and "\<forall>j<k. term_completes strftime st search_type search_field (length terms) j (terms ! j)
            (env j)"
  shows "run_api_search strftime st search_type search_field terms env
     = (concat (map (\<lambda>j. term_events strftime st search_type search_field (length terms) j
                       (terms ! j) (env j)) [0..<k])
          @ [Log_event ''Search stopped by user.'' (Some ''WARN''),
             Done_event (concat (map (\<lambda>j. term_records strftime st search_type search_field
                           (length terms) j (terms ! j) (env j)) [0..<k]))],
        None)
     \<and> list_all is_log (concat (map (\<lambda>j. term_events strftime st search_type search_field
                          (length terms) j (terms ! j) (env j)) [0..<k]))
     \<and> (k = 0 \<longrightarrow> run_api_search strftime st search_type search_field terms env
           = ([Log_event ''Search stopped by user.'' (Some ''WARN''), Done_event []], None))"
proof -
  have pc: "processed_count env 0 terms = k"
    by (rule processed_count_eq) (use assms(1-3) in simp_all)
  from assms(4) have tc: "\<forall>j<processed_count env 0 terms.
      term_completes strftime st search_type search_field (length terms) j (terms ! j) (env j)"
    by (simp add: pc)
  have run: "run_api_search strftime st search_type search_field terms env
     = (concat (map (\<lambda>j. term_events strftime st search_type search_field (length terms) j
                       (terms ! j) (env j)) [0..<k])
          @ [Log_event ''Search stopped by user.'' (Some ''WARN''),
             Done_event (concat (map (\<lambda>j. term_records strftime st search_type search_field
                           (length terms) j (terms ! j) (env j)) [0..<k]))],
        None)"
    using run_api_search_finished [OF tc] assms(1) by (simp add: pc stop_notice_def)
  have logs: "list_all is_log (concat (map (\<lambda>j. term_events strftime st search_type search_field
                          (length terms) j (terms ! j) (env j)) [0..<k]))"
    by (rule term_events_concat_logs)
  from run have "k = 0 \<longrightarrow> run_api_search strftime st search_type search_field terms env
           = ([Log_event ''Search stopped by user.'' (Some ''WARN''), Done_event []], None)"
    by simp
  with run logs show ?thesis by (intro conjI)
qed

theorem stop_at_boundary_witness:
  "Suc 0 < length [''A1'', ''A2'']
   \<and> stop_is_set (sample_stop_env (Suc 0) sample_point_get (Suc 0))
   \<and> \<not> stop_is_set (sample_stop_env (Suc 0) sample_point_get 0)
   \<and> term_completes sample_strftime sample_store ''outbound'' ''Client ID''
          (length [''A1'', ''A2'']) 0 ([''A1'', ''A2''] ! 0)
          (sample_stop_env (Suc 0) sample_point_get 0)
   \<and> run_api_search sample_strftime sample_store ''outbound'' ''Client ID'' [''A1'', ''A2'']
       (sample_stop_env (Suc 0) sample_point_get)
     = ([Log_event ''Searching (1/2): A1...'' None,
         Log_event ''GET https://storeapi.parcelninja.com/api/v1/outbounds/0 [X-Client-Id: A1]''
           (Some ''DEBUG''),
         Log_event ''Search stopped by user.'' (Some ''WARN''),
         Done_event [[(''id'', JInt 1), (''_store_name'', JStr ''Diesel'')]]],
        None)
   \<and> stop_is_set (sample_stop_env 0 sample_point_get 0)
   \<and> run_api_search sample_strftime sample_store ''outbound'' ''Client ID'' [''A1'', ''A2'']
       (sample_stop_env 0 sample_point_get)
     = ([Log_event ''Search stopped by user.'' (Some ''WARN''), Done_event []], None)"
proof -
  have z1: "0 < length [''A1'', ''A2'']" by simp
  have z2: "stop_is_set (sample_stop_env 0 sample_point_get 0)"
    by (simp add: sample_stop_env_def)
  have z3: "\<forall>j<0. \<not> stop_is_set (sample_stop_env 0 sample_point_get j)" by simp
  have z4: "\<forall>j<0. term_completes sample_strftime sample_store ''outbound'' ''Client ID''
          (length [''A1'', ''A2'']) j ([''A1'', ''A2''] ! j) (sample_stop_env 0 sample_point_get j)"
    by simp
  from stop_at_boundary [OF z1 z2 z3 z4]
  have z: "run_api_search sample_strftime sample_store ''outbound'' ''Client ID'' [''A1'', ''A2'']
       (sample_stop_env 0 sample_point_get)
     = ([Log_event ''Search stopped by user.'' (Some ''WARN''), Done_event []], None)"
    by simp
  have h1: "Suc 0 < length [''A1'', ''A2'']" by simp
  have h2: "stop_is_set (sample_stop_env (Suc 0) sample_point_get (Suc 0))" by (simp add: sample_stop_env_def)
  have h3: "\<forall>j<Suc 0. \<not> stop_is_set (sample_stop_env (Suc 0) sample_point_get j)" by (simp add: sample_stop_env_def)
  have h4: "\<forall>j<Suc 0. term_completes sample_strftime sample_store ''outbound'' ''Client ID''
          (length [''A1'', ''A2'']) j ([''A1'', ''A2''] ! j) (sample_stop_env (Suc 0) sample_point_get j)"
    by (simp add: term_completes_def process_term_def lookup_def point_lookup_def point_request_def
      sample_stop_env_def sample_point_get_def found_response_def)
  have e0: "term_events sample_strftime sample_store ''outbound'' ''Client ID'' (Suc (Suc 0)) 0
      ''A1'' (sample_stop_env (Suc 0) sample_point_get 0)
      = [Log_event ''Searching (1/2): A1...'' None,
         Log_event ''GET https://storeapi.parcelninja.com/api/v1/outbounds/0 [X-Client-Id: A1]''
           (Some ''DEBUG'')]"
    by (simp add: term_events_def process_term_def lookup_def point_lookup_def point_request_def
      sample_stop_env_def sample_point_get_def found_response_def str_nat.simps digit_char_def
      API_BASE_URL_def)
  have r0: "term_records sample_strftime sample_store ''outbound'' ''Client ID'' (Suc (Suc 0)) 0
      ''A1'' (sample_stop_env (Suc 0) sample_point_get 0)
      = [[(''id'', JInt 1), (''_store_name'', JStr ''Diesel'')]]"
    by (simp add: term_records_def process_term_def lookup_def point_lookup_def point_request_def
      sample_stop_env_def sample_point_get_def found_response_def sample_store_def)
  from stop_at_boundary [OF h1 h2 h3 h4]
  have "run_api_search sample_strftime sample_store ''outbound'' ''Client ID'' [''A1'', ''A2'']
       (sample_stop_env (Suc 0) sample_point_get)
     = ([Log_event ''Searching (1/2): A1...'' None,
         Log_event ''GET https://storeapi.parcelninja.com/api/v1/outbounds/0 [X-Client-Id: A1]''
           (Some ''DEBUG''),
         Log_event ''Search stopped by user.'' (Some ''WARN''),
         Done_event [[(''id'', JInt 1), (''_store_name'', JStr ''Diesel'')]]],
        None)"
    by (simp add: e0 r0)
  with h1 h2 h3 h4 z2 z show ?thesis by simp
qed

theorem stop_at_boundary_counterexample:
  "\<not> stop_is_set (sample_stop_env (Suc 0) sample_list_get 0)
   \<and> stop_is_set (sample_stop_env (Suc 0) sample_list_get (Suc 0))
   \<and> run_api_search sample_strftime sample_store ''outbound'' ''Client ID'' [''A1'', ''A2'']
       (sample_stop_env (Suc 0) sample_list_get)
     = ([Log_event ''Searching (1/2): A1...'' None,
         Log_event ''GET https://storeapi.parcelninja.com/api/v1/outbounds/0 [X-Client-Id: A1]''
           (Some ''DEBUG'')],
        Some TypeError)
   \<and> \<not> (\<exists>logs batch.
          fst (run_api_search sample_strftime sample_store ''outbound'' ''Client ID''
                 [''A1'', ''A2''] (sample_stop_env (Suc 0) sample_list_get)) = logs @ [Done_event batch])"
proof -
  have r: "run_api_search sample_strftime sample_store ''outbound'' ''Client ID'' [''A1'', ''A2'']
       (sample_stop_env (Suc 0) sample_list_get)
     = ([Log_event ''Searching (1/2): A1...'' None,
         Log_event ''GET https://storeapi.parcelninja.com/api/v1/outbounds/0 [X-Client-Id: A1]''
           (Some ''DEBUG'')],
        Some TypeError)"
    by (simp add: run_api_search_def process_term_def lookup_def
      point_lookup_def sample_stop_env_def sample_list_get_def
      found_response_def str_nat.simps digit_char_def API_BASE_URL_def)
  have "\<not> (\<exists>logs batch. [Log_event ''Searching (1/2): A1...'' None,
         Log_event ''GET https://storeapi.parcelninja.com/api/v1/outbounds/0 [X-Client-Id: A1]''
           (Some ''DEBUG'')]
         = logs @ [Done_event batch])"
    by (simp add: Cons_eq_append_conv)
  with r show ?thesis by (simp add: sample_stop_env_def)
qed

section \<open>The orchestrator: status 404 and the reason of a placeholder\<close>

lemma process_term_events:
  assumes "lookup strftime st search_type search_field trm env = (evs, Inr (rs, found))"
  shows "process_term strftime st search_type search_field total_terms index trm env
     = (Log_event (''Searching ('' @ str_nat (index + 1) @ ''/'' @ str_nat total_terms
                    @ ''): '' @ trm @ ''...'') None # evs,
        Inr (if found then rs else rs @ [synthetic_record trm ''Not Found'' st]))"
  unfolding process_term_def Let_def by (simp add: assms)

text \<open>
  C5 (as amended). When the direct lookup of a term answers with status 404, the pass puts
  the progress message, the debug message and the message \<^verbatim>\<open>Term '...' not found (404).\<close>
  at level \<^verbatim>\<open>WARN\<close>, no message at level \<^verbatim>\<open>ERROR\<close>, and the term is left without a result:
  the lookup returns no record and \<^verbatim>\<open>found_for_term\<close> false, and the placeholder
  \<^verbatim>\<open>'Not Found'\<close> is appended. When the general search answers with status 404, the term
  is left without a result in the same way, but the third message is
  \<^verbatim>\<open>Error for '...': HTTP 404\<close> at level \<^verbatim>\<open>ERROR\<close>, and none is at level \<^verbatim>\<open>WARN\<close>.
\<close>

theorem not_found_logging:
  "(is_point_lookup search_type search_field
      \<and> http_get env (point_request st trm) = Inr resp \<and> status_code resp = 404 \<longrightarrow>
      process_term strftime st search_type search_field total_terms index trm env
        = ([Log_event (''Searching ('' @ str_nat (index + 1) @ ''/'' @ str_nat total_terms
                         @ ''): '' @ trm @ ''...'') None,
            Log_event (''GET '' @ API_BASE_URL @ ''/outbounds/0 [X-Client-Id: '' @ trm @ '']'')
              (Some ''DEBUG''),
            Log_event (''Term '' @ apostrophe @ trm @ apostrophe @ '' not found (404).'')
              (Some ''WARN'')],
           Inr [synthetic_record trm ''Not Found'' st])
      \<and> snd (lookup strftime st search_type search_field trm env) = Inr ([], False))
   \<and> (\<not> is_point_lookup search_type' search_field'
      \<and> http_get env (windowed_request strftime st search_type' search_field' trm
                        (int (utcnow env))) = Inr resp
      \<and> status_code resp = 404 \<longrightarrow>
      process_term strftime st search_type' search_field' total_terms index trm env
        = ([Log_event (''Searching ('' @ str_nat (index + 1) @ ''/'' @ str_nat total_terms
                         @ ''): '' @ trm @ ''...'') None,
            Log_event (''GET '' @ API_BASE_URL @ ''/'' @ search_type' @ ''s ?search='' @ trm)
              (Some ''DEBUG''),
            Log_event (''Error for '' @ apostrophe @ trm @ apostrophe @ '': HTTP 404'')
              (Some ''ERROR'')],
           Inr [synthetic_record trm ''Not Found'' st])
      \<and> snd (lookup strftime st search_type' search_field' trm env) = Inr ([], False))"
proof (intro conjI impI)
  assume a: "is_point_lookup search_type search_field
      \<and> http_get env (point_request st trm) = Inr resp \<and> status_code resp = 404"
  then have l: "lookup strftime st search_type search_field trm env
      = ([Log_event (''GET '' @ API_BASE_URL @ ''/outbounds/0 [X-Client-Id: '' @ trm @ '']'')
              (Some ''DEBUG''),
          Log_event (''Term '' @ apostrophe @ trm @ apostrophe @ '' not found (404).'')
              (Some ''WARN'')],
         Inr ([], False))"
    unfolding lookup_def is_point_lookup_def point_lookup_def Let_def by simp
  from process_term_events [OF l]
  show "process_term strftime st search_type search_field total_terms index trm env
        = ([Log_event (''Searching ('' @ str_nat (index + 1) @ ''/'' @ str_nat total_terms
                         @ ''): '' @ trm @ ''...'') None,
            Log_event (''GET '' @ API_BASE_URL @ ''/outbounds/0 [X-Client-Id: '' @ trm @ '']'')
              (Some ''DEBUG''),
            Log_event (''Term '' @ apostrophe @ trm @ apostrophe @ '' not found (404).'')
              (Some ''WARN'')],
           Inr [synthetic_record trm ''Not Found'' st])" by simp
  from l show "snd (lookup strftime st search_type search_field trm env) = Inr ([], False)"
    by simp
next
  assume a: "\<not> is_point_lookup search_type' search_field'
      \<and> http_get env (windowed_request strftime st search_type' search_field' trm
                        (int (utcnow env))) = Inr resp
      \<and> status_code resp = 404"
  then have w: "lookup strftime st search_type' search_field' trm env
      = windowed_search strftime st search_type' search_field' trm env"
    unfolding lookup_def is_point_lookup_def by auto
  have s404: "str_nat 404 = ''404''" by (simp add: str_nat.simps digit_char_def)
  from a have l: "lookup strftime st search_type' search_field' trm env
      = ([Log_event (''GET '' @ API_BASE_URL @ ''/'' @ search_type' @ ''s ?search='' @ trm)
              (Some ''DEBUG''),
          Log_event (''Error for '' @ apostrophe @ trm @ apostrophe @ '': HTTP 404'')
              (Some ''ERROR'')],
         Inr ([], False))"
    unfolding w windowed_search_def Let_def by (simp add: s404)
  from process_term_events [OF l]
  show "process_term strftime st search_type' search_field' total_terms index trm env
        = ([Log_event (''Searching ('' @ str_nat (index + 1) @ ''/'' @ str_nat total_terms
                         @ ''): '' @ trm @ ''...'') None,
            Log_event (''GET '' @ API_BASE_URL @ ''/'' @ search_type' @ ''s ?search='' @ trm)
              (Some ''DEBUG''),
            Log_event (''Error for '' @ apostrophe @ trm @ apostrophe @ '': HTTP 404'')
              (Some ''ERROR'')],
           Inr [synthetic_record trm ''Not Found'' st])" by simp
  from l show "snd (lookup strftime st search_type' search_field' trm env) = Inr ([], False)"
    by simp
qed

theorem not_found_logging_witness:
  "is_point_lookup ''outbound'' ''Client ID''
   \<and> http_get (sample_env sample_404_get 0) (point_request sample_store ''A2'')
       = Inr (status_response 404)
   \<and> status_code (status_response 404) = 404
   \<and> process_term sample_strftime sample_store ''outbound'' ''Client ID'' 2 1 ''A2''
        (sample_env sample_404_get 0)
       = ([Log_event ''Searching (2/2): A2...'' None,
           Log_event ''GET https://storeapi.parcelninja.com/api/v1/outbounds/0 [X-Client-Id: A2]''
             (Some ''DEBUG''),
           Log_event (''Term '' @ apostrophe @ ''A2'' @ apostrophe @ '' not found (404).'')
             (Some ''WARN'')],
          Inr [[(''shipment_id_searched'', JStr ''A2''), (''status_error'', JStr ''Not Found''),
                (''_store_name'', JStr ''Diesel'')]])
   \<and> \<not> is_point_lookup ''inbound'' ''Supplier Reference''
   \<and> http_get (sample_env sample_404_get 0)
        (windowed_request sample_strftime sample_store ''inbound'' ''Supplier Reference'' ''A2''
           (int (utcnow (sample_env sample_404_get 0)))) = Inr (status_response 404)
   \<and> process_term sample_strftime sample_store ''inbound'' ''Supplier Reference'' 2 1 ''A2''
        (sample_env sample_404_get 0)
       = ([Log_event ''Searching (2/2): A2...'' None,
           Log_event ''GET https://storeapi.parcelninja.com/api/v1/inbounds ?search=A2''
             (Some ''DEBUG''),
           Log_event (''Error for '' @ apostrophe @ ''A2'' @ apostrophe @ '': HTTP 404'')
             (Some ''ERROR'')],
          Inr [[(''shipment_id_searched'', JStr ''A2''), (''status_error'', JStr ''Not Found''),
                (''_store_name'', JStr ''Diesel'')]])"
proof -
  have h1: "is_point_lookup ''outbound'' ''Client ID''
      \<and> http_get (sample_env sample_404_get 0) (point_request sample_store ''A2'')
          = Inr (status_response 404)
      \<and> status_code (status_response 404) = 404"
    by (simp add: is_point_lookup_def sample_env_def sample_404_get_def status_response_def)
  have h2: "\<not> is_point_lookup ''inbound'' ''Supplier Reference''
      \<and> http_get (sample_env sample_404_get 0)
        (windowed_request sample_strftime sample_store ''inbound'' ''Supplier Reference'' ''A2''
           (int (utcnow (sample_env sample_404_get 0)))) = Inr (status_response 404)
      \<and> status_code (status_response 404) = 404"
    by (simp add: is_point_lookup_def sample_env_def sample_404_get_def status_response_def)
  have s: "str_nat (Suc (Suc 0)) = ''2''" "str_nat 2 = ''2''"
    by (simp_all add: str_nat.simps digit_char_def)
  from not_found_logging [where search_type = "''outbound''" and search_field = "''Client ID''"
      and search_type' = "''inbound''" and search_field' = "''Supplier Reference''"
      and env = "sample_env sample_404_get 0" and st = sample_store and trm = "''A2''"
      and resp = "status_response 404" and strftime = sample_strftime
      and total_terms = 2 and index = 1] h1 h2
  show ?thesis
    by (simp add: s synthetic_record_def sample_store_def API_BASE_URL_def)
qed

theorem not_found_logging_counterexample:
  "\<not> is_point_lookup ''inbound'' ''Supplier Reference''
   \<and> status_code (status_response 404) = 404
   \<and> http_get (sample_env sample_404_get 0)
        (windowed_request sample_strftime sample_store ''inbound'' ''Supplier Reference'' ''A2''
           (int (utcnow (sample_env sample_404_get 0)))) = Inr (status_response 404)
   \<and> list_ex (has_level ''ERROR'')
        (term_events sample_strftime sample_store ''inbound'' ''Supplier Reference'' 2 1 ''A2''
           (sample_env sample_404_get 0))
   \<and> \<not> list_ex (has_level ''WARN'')
        (term_events sample_strftime sample_store ''inbound'' ''Supplier Reference'' 2 1 ''A2''
           (sample_env sample_404_get 0))"
  by (simp add: is_point_lookup_def sample_env_def sample_404_get_def status_response_def
      term_events_def process_term_def lookup_def windowed_search_def has_level_def)



section \<open>The projection of a batch\<close>

lemma headers_agree: "sorted_headers flat_results = all_headers flat_results"
proof -
  let ?ks = "concat (map (map fst) flat_results)"
  have "filter (\<lambda>h. h \<noteq> ''Store'') (remdups (''Store'' # ?ks))
      = remdups (filter (\<lambda>key. key \<noteq> ''Store'') ?ks)"
    by (simp add: remdups_filter)
  then show ?thesis unfolding sorted_headers_def all_headers_def by simp
qed

lemma all_headers_sorted:
  "\<exists>cols. all_headers flat_results = ''Store'' # cols \<and> sorted_wrt (<) cols
     \<and> set cols = (\<Union>r\<in>set flat_results. fst ` set r) - {''Store''}"
proof -
  let ?cols = "sort (remdups (filter (\<lambda>key. key \<noteq> ''Store'')
                                 (concat (map (map fst) flat_results))))"
  have "sorted ?cols \<and> distinct ?cols" by simp
  then have "sorted_wrt (<) ?cols" by (simp add: strict_sorted_iff)
  moreover have "set ?cols = (\<Union>r\<in>set flat_results. fst ` set r) - {''Store''}" by auto
  ultimately show ?thesis unfolding all_headers_def by blast
qed

text \<open>
  C6 (as amended). For every batch of results that is not empty, the columns of the table
  are \<^verbatim>\<open>'Store'\<close> followed by the names, other than \<^verbatim>\<open>'Store'\<close>, of all fields of all
  flattened records, without repetition and in strictly increasing lexicographic order of
  their code points; the rows are, in the order of the batch, the values of each flattened
  record under every column, with the empty string for a field that the record lacks; and
  the exporter, when a file is chosen and written, writes the same header and the same rows.
  An empty batch gives a table without columns and without rows.
\<close>

theorem projection_columns:
  assumes "results \<noteq> []"
  shows "(\<exists>cols. columns (update_results_table dumps results) = ''Store'' # cols
            \<and> sorted_wrt (<) cols
            \<and> set cols = (\<Union>r\<in>set (flat_results_of dumps results). fst ` set r) - {''Store''})
     \<and> map fst (rows (update_results_table dumps results))
         = map (\<lambda>r. map (\<lambda>c. case dict_get r c of Some v \<Rightarrow> v | None \<Rightarrow> JStr [])
                       (columns (update_results_table dumps results)))
             (flat_results_of dumps results)
     \<and> flat_results_of dumps results
         = map (\<lambda>record. rename_store (flatten_dict dumps record [] ''.'')) results
     \<and> (filepath \<noteq> [] \<longrightarrow>
          export_to_csv dumps results filepath None
            = [Write_csv filepath (columns (update_results_table dumps results))
                 (map fst (rows (update_results_table dumps results))),
               Show_info ''Success'' (''Successfully exported data to:'' @ [CHR 0x0A] @ filepath),
               Log_line (''Data exported to '' @ filepath) ''INFO''])
     \<and> update_results_table dumps [] = \<lparr>columns = [], rows = []\<rparr>"
proof -
  have c: "columns (update_results_table dumps results)
      = all_headers (flat_results_of dumps results)"
    using assms unfolding update_results_table_def Let_def by (simp add: headers_agree)
  have r: "map fst (rows (update_results_table dumps results))
      = map (row_values (all_headers (flat_results_of dumps results)))
          (flat_results_of dumps results)"
    using assms unfolding update_results_table_def Let_def
    by (simp add: headers_agree comp_def)
  have 1: "\<exists>cols. columns (update_results_table dumps results) = ''Store'' # cols
            \<and> sorted_wrt (<) cols
            \<and> set cols = (\<Union>r\<in>set (flat_results_of dumps results). fst ` set r) - {''Store''}"
    unfolding c by (rule all_headers_sorted)
  have 2: "map fst (rows (update_results_table dumps results))
         = map (\<lambda>r. map (\<lambda>c. case dict_get r c of Some v \<Rightarrow> v | None \<Rightarrow> JStr [])
                       (columns (update_results_table dumps results)))
             (flat_results_of dumps results)"
    unfolding r c row_values_def by simp
  have 3: "flat_results_of dumps results
         = map (\<lambda>record. rename_store (flatten_dict dumps record [] ''.'')) results"
    by (simp add: flat_results_of_def)
  have 4: "filepath \<noteq> [] \<longrightarrow>
          export_to_csv dumps results filepath None
            = [Write_csv filepath (columns (update_results_table dumps results))
                 (map fst (rows (update_results_table dumps results))),
               Show_info ''Success'' (''Successfully exported data to:'' @ [CHR 0x0A] @ filepath),
               Log_line (''Data exported to '' @ filepath) ''INFO'']"
    using assms unfolding export_to_csv_def Let_def r c by simp
  have 5: "update_results_table dumps [] = \<lparr>columns = [], rows = []\<rparr>"
    by (simp add: update_results_table_def)
  from 1 2 3 4 5 show ?thesis by (intro conjI)
qed

theorem projection_columns_witness:
  "sample_results \<noteq> []
   \<and> ''out.csv'' \<noteq> []
   \<and> (\<exists>cols. columns (update_results_table sample_dumps sample_results) = ''Store'' # cols
         \<and> sorted_wrt (<) cols
         \<and> set cols = (\<Union>r\<in>set (flat_results_of sample_dumps sample_results). fst ` set r)
                        - {''Store''})
   \<and> update_results_table sample_dumps sample_results
       = \<lparr>columns = [''Store'', ''a.b'', ''shipment_id_searched'', ''status_error''],
          rows = [([JStr ''Diesel'', JInt 5, JStr [], JStr []], ''normal''),
                  ([JStr ''Diesel'', JStr [], JStr ''X'', JStr ''Not Found''], ''error'')]\<rparr>
   \<and> export_to_csv sample_dumps sample_results ''out.csv'' None
       = [Write_csv ''out.csv'' [''Store'', ''a.b'', ''shipment_id_searched'', ''status_error'']
            [[JStr ''Diesel'', JInt 5, JStr [], JStr []],
             [JStr ''Diesel'', JStr [], JStr ''X'', JStr ''Not Found'']],
          Show_info ''Success'' (''Successfully exported data to:'' @ [CHR 0x0A] @ ''out.csv''),
          Log_line ''Data exported to out.csv'' ''INFO'']"
proof -
  have h: "sample_results \<noteq> []" by (simp add: sample_results_def)
  have f: "''out.csv'' \<noteq> []" by simp
  have t: "update_results_table sample_dumps sample_results
       = \<lparr>columns = [''Store'', ''a.b'', ''shipment_id_searched'', ''status_error''],
          rows = [([JStr ''Diesel'', JInt 5, JStr [], JStr []], ''normal''),
                  ([JStr ''Diesel'', JStr [], JStr ''X'', JStr ''Not Found''], ''error'')]\<rparr>"
    by (simp add: update_results_table_def sample_results_def flat_results_of_def
        flatten_dict_def dict_of_items_def rename_store_def sorted_headers_def row_values_def
        row_tag_def)
  note p = projection_columns [OF h, of sample_dumps "''out.csv''"]
  from p have 1: "\<exists>cols. columns (update_results_table sample_dumps sample_results)
         = ''Store'' # cols
         \<and> sorted_wrt (<) cols
         \<and> set cols = (\<Union>r\<in>set (flat_results_of sample_dumps sample_results). fst ` set r)
                        - {''Store''}" by (rule conjunct1)
  from p f have "export_to_csv sample_dumps sample_results ''out.csv'' None
            = [Write_csv ''out.csv'' (columns (update_results_table sample_dumps sample_results))
                 (map fst (rows (update_results_table sample_dumps sample_results))),
               Show_info ''Success'' (''Successfully exported data to:'' @ [CHR 0x0A] @ ''out.csv''),
               Log_line (''Data exported to '' @ ''out.csv'') ''INFO'']" by blast
  then have 2: "export_to_csv sample_dumps sample_results ''out.csv'' None
       = [Write_csv ''out.csv'' [''Store'', ''a.b'', ''shipment_id_searched'', ''status_error'']
            [[JStr ''Diesel'', JInt 5, JStr [], JStr []],
             [JStr ''Diesel'', JStr [], JStr ''X'', JStr ''Not Found'']],
          Show_info ''Success'' (''Successfully exported data to:'' @ [CHR 0x0A] @ ''out.csv''),
          Log_line ''Data exported to out.csv'' ''INFO'']"
    by (simp add: t)
  from h f 1 t 2 show ?thesis by (intro conjI)
qed

theorem projection_columns_counterexample:
  "columns (update_results_table sample_dumps []) = []
   \<and> \<not> (\<exists>cols. columns (update_results_table sample_dumps []) = ''Store'' # cols)"
  by (simp add: update_results_table_def)

section \<open>The request of the general search, and starting a search\<close>

lemma lower_Outbound: "lower ''Outbound'' = ''outbound''"
  by code_simp

text \<open>
  C2. The query parameters of the request of the general search are \<^verbatim>\<open>startDate\<close>,
  \<^verbatim>\<open>endDate\<close>, \<^verbatim>\<open>search\<close> and \<^verbatim>\<open>pageSize\<close> and no other, whatever the search field: the
  name that \<^verbatim>\<open>api_search_field\<close> holds is not among them, so that the request for the
  field \<^verbatim>\<open>'Channel ID'\<close> has no parameter \<^verbatim>\<open>channelId\<close>, and the request and the outcome
  of the general search are the same for any two search fields.
\<close>

theorem windowed_request_params:
  "params (windowed_request strftime st search_type search_field trm end_date)
     = [(''startDate'', JStr (strftime (end_date - 730))),
        (''endDate'', JStr (strftime end_date)),
        (''search'', JStr trm),
        (''pageSize'', JInt 100)]
   \<and> map_of (params (windowed_request strftime st ''outbound'' ''Channel ID'' ''X'' end_date))
        ''channelId'' = None
   \<and> windowed_request strftime st search_type search_field trm end_date
       = windowed_request strftime st search_type search_field' trm end_date
   \<and> windowed_search strftime st search_type search_field trm env
       = windowed_search strftime st search_type search_field' trm env"
  by (simp add: windowed_request_def windowed_search_def)

text \<open>
  C8. A blank input is turned away by the guard of \<^verbatim>\<open>start_search\<close> with a warning and
  no change of state. For the input \<^verbatim>\<open>","\<close> the guard lets the call through although
  the list of terms is empty: the stored results and the rows of the table are cleared, the
  window is put in the searching state, and the worker thread is started with no terms.
\<close>

theorem start_search_separators_only:
  "start_search sample_app ''Diesel'' ''Outbound'' ''Client ID'' ''  ''
     = (sample_app, [Show_warning ''Input Required'' ''Please enter one or more search terms.''])
   \<and> strip '','' \<noteq> []
   \<and> map strip (filter (\<lambda>trm. strip trm \<noteq> []) (re_split '','')) = []
   \<and> start_search sample_app ''Diesel'' ''Outbound'' ''Client ID'' '',''
       = (sample_app\<lparr>is_searching := True, stop_button := True, search_button := False,
                      refresh_button := False, export_button := False,
                      tree := \<lparr>columns = [''Store'', ''a.b''], rows = []\<rparr>,
                      results_data := [],
                      status_label := ''Searching in Diesel for 0 term(s)...''\<rparr>,
          [Log_line (''Starting search in store '' @ apostrophe @ ''Diesel'' @ apostrophe
                       @ '' (7b0fb2ac)'') ''INFO'',
           Log_line ''Type: outbound, Field: Client ID, Terms: 0'' ''INFO'',
           Thread_start sample_store ''outbound'' ''Client ID'' []])"
  by (simp add: start_search_def strip_def py_isspace_def lower_Outbound sample_app_def
      sample_store_def str_nat.simps digit_char_def)

end
